theory Spec2Isabelle
  imports Main "HOL-Library.AList" "HOL-Library.Char_ord" "HOL-Library.List_Lexorder"
    "HOL-Library.Multiset"
begin

section \<open>Python values, dictionaries and the object store\<close>

text \<open>
  A naive local date-time is the number of microseconds since a fixed midnight.
  \<open>dt.strftime("%Y-%m-%d")\<close> is injective on calendar days, so the day number stands for
  the formatted date; \<open>dt.strftime('%Y-%m-%d %H:%M:%S')\<close> is injective on whole seconds, so
  the second number stands for the formatted time.
\<close>

type_synonym datetime = int

definition date_key :: "datetime \<Rightarrow> int" where
  "date_key dt = dt div 86400000000"

definition strftime_seconds :: "datetime \<Rightarrow> int" where
  "strftime_seconds dt = dt div 1000000"

definition timedelta_minutes :: "int \<Rightarrow> int" where
  "timedelta_minutes m = m * 60000000"

definition timedelta_days :: "int \<Rightarrow> int" where
  "timedelta_days d = d * 86400000000"

text \<open>
  The values a transaction dictionary holds: JSON scalars and the \<open>datetime\<close> objects of
  device mode. A transaction is a Python \<open>dict\<close>: an association list in insertion order,
  looked up with \<open>map_of\<close> and written with \<open>AList.update\<close> (an existing key keeps its
  place, a new key goes to the end, as in Python).
\<close>

datatype pyval = PNone | PBool bool | PInt int | PStr string | PTime datetime

type_synonym transaction = "(string \<times> pyval) list"

fun truthy :: "pyval \<Rightarrow> bool" where
  "truthy PNone = False"
| "truthy (PBool b) = b"
| "truthy (PInt i) = (i \<noteq> 0)"
| "truthy (PStr s) = (s \<noteq> [])"
| "truthy (PTime t) = True"

definition dict_get :: "transaction \<Rightarrow> string \<Rightarrow> pyval" where
  "dict_get t k = (case map_of t k of None \<Rightarrow> PNone | Some v \<Rightarrow> v)"

definition py_or :: "pyval \<Rightarrow> pyval \<Rightarrow> pyval" where
  "py_or a b = (if truthy a then a else b)"

text \<open>Python's \<open>==\<close> and hashing identify \<open>True\<close> with \<open>1\<close> and \<open>False\<close> with \<open>0\<close>.\<close>

fun py_key :: "pyval \<Rightarrow> pyval" where
  "py_key (PBool b) = PInt (if b then 1 else 0)"
| "py_key v = v"

text \<open>
  The normalizers mutate the dictionaries of the list they are given, and the callers read
  the mutated dictionaries afterwards. A list of transactions is therefore a list of object
  addresses, and the dictionaries live in a store.
\<close>

type_synonym addr = nat
type_synonym heap = "addr \<Rightarrow> transaction"

definition log_type_of :: "heap \<Rightarrow> addr \<Rightarrow> pyval" where
  "log_type_of h a = dict_get (h a) ''log_type''"

section \<open>Strings\<close>

text \<open>
  A Python \<open>str\<close> is the list of the bytes of its UTF-8 encoding; on ASCII text these are
  its characters. \<open>x in s\<close> is \<open>contains x s\<close>. \<open>upper\<close>, \<open>lower\<close> and \<open>strip\<close> act on
  ASCII letters and ASCII white space and leave every other byte as it is (the Urdu phrases
  of the Label Detector have no letter case). The model therefore agrees with Python on
  ASCII text: on other text \<open>len\<close> and slices count bytes here and characters in Python,
  and Python's \<open>upper\<close> also maps letters outside ASCII (the dotless i becomes \<open>I\<close>).
\<close>

fun contains :: "string \<Rightarrow> string \<Rightarrow> bool" where
  "contains p [] = (p = [])"
| "contains p (c # cs) = (take (length p) (c # cs) = p \<or> contains p cs)"

definition upper_char :: "char \<Rightarrow> char" where
  "upper_char c = (let n = (of_char c :: nat) in if 97 \<le> n \<and> n \<le> 122 then char_of (n - 32) else c)"

definition lower_char :: "char \<Rightarrow> char" where
  "lower_char c = (let n = (of_char c :: nat) in if 65 \<le> n \<and> n \<le> 90 then char_of (n + 32) else c)"

definition py_upper :: "string \<Rightarrow> string" where
  "py_upper s = map upper_char s"

definition py_lower :: "string \<Rightarrow> string" where
  "py_lower s = map lower_char s"

definition is_space :: "char \<Rightarrow> bool" where
  "is_space c = (let n = (of_char c :: nat) in (9 \<le> n \<and> n \<le> 13) \<or> (28 \<le> n \<and> n \<le> 32))"

definition py_strip :: "string \<Rightarrow> string" where
  "py_strip s = rev (dropWhile is_space (rev (dropWhile is_space s)))"

fun digits_of_nat :: "nat \<Rightarrow> string" where
  "digits_of_nat n =
     (if n < 10 then [char_of (48 + n)] else digits_of_nat (n div 10) @ [char_of (48 + n mod 10)])"

declare digits_of_nat.simps [simp del]

definition str_of_int :: "int \<Rightarrow> string" where
  "str_of_int i = (if i < 0 then CHR ''-'' # digits_of_nat (nat (- i)) else digits_of_nat (nat i))"

text \<open>
  What the Python runtime and its libraries do and the sources do not define: \<open>str\<close> of a
  \<open>datetime\<close> and \<open>int\<close> of a string (\<open>None\<close> for \<open>ValueError\<close>).
\<close>

record py_runtime =
  str_of_datetime :: "datetime \<Rightarrow> string"
  int_of_string :: "string \<Rightarrow> int option"

definition py_str :: "py_runtime \<Rightarrow> pyval \<Rightarrow> string" where
  "py_str rt v =
     (case v of
        PNone \<Rightarrow> ''None''
      | PBool b \<Rightarrow> (if b then ''True'' else ''False'')
      | PInt i \<Rightarrow> str_of_int i
      | PStr s \<Rightarrow> s
      | PTime t \<Rightarrow> str_of_datetime rt t)"

text \<open>\<open>int(v)\<close>: \<open>None\<close> where Python raises \<open>ValueError\<close> or \<open>TypeError\<close>.\<close>

definition py_int :: "py_runtime \<Rightarrow> pyval \<Rightarrow> int option" where
  "py_int rt v =
     (case v of
        PNone \<Rightarrow> None
      | PBool b \<Rightarrow> Some (if b then 1 else 0)
      | PInt i \<Rightarrow> Some i
      | PStr s \<Rightarrow> int_of_string rt s
      | PTime t \<Rightarrow> None)"

section \<open>The Punch Normalizer of the app package\<close>

text \<open>
  \<open>adjust_checkin_sequence\<close> of
  \<open>zkteco_checkins_sync/zkteco_checkins_sync/zkteco_checkin_sync/doctype/zkteco_config/zkteco_config.py\<close>.
  \<open>frappe.utils.get_datetime\<close> is a parameter \<open>gd\<close>: \<open>None\<close> when it raises (the
  \<open>except\<close> skips the record) or returns nothing usable.
\<close>

definition punch_key ::
  "(pyval \<Rightarrow> datetime option) \<Rightarrow> transaction \<Rightarrow> ((pyval \<times> int) \<times> datetime) option" where
  "punch_key gd t =
     (let emp = py_or (dict_get t ''emp_code'') (dict_get t ''employee_code'');
          raw_time = py_or (dict_get t ''punch_time'') (py_or (dict_get t ''punchTime'')
                     (py_or (dict_get t ''punchtime'') (py_or (dict_get t ''timestamp'')
                     (dict_get t ''time''))))
      in if \<not> truthy emp \<or> \<not> truthy raw_time then None
         else (case gd raw_time of
                 None \<Rightarrow> None
               | Some dt \<Rightarrow> Some ((py_key emp, date_key dt), dt)))"

text \<open>\<open>grouped[key].append(x)\<close> on a \<open>defaultdict(list)\<close>, which keeps insertion order.\<close>

fun group_append :: "'k \<Rightarrow> 'v \<Rightarrow> ('k \<times> 'v list) list \<Rightarrow> ('k \<times> 'v list) list" where
  "group_append k v [] = [(k, [v])]"
| "group_append k v ((k', vs) # g) =
     (if k = k' then (k', vs @ [v]) # g else (k', vs) # group_append k v g)"

definition group_step ::
  "(pyval \<Rightarrow> datetime option) \<Rightarrow> heap \<Rightarrow> ((pyval \<times> int) \<times> (datetime \<times> addr) list) list \<Rightarrow> addr
     \<Rightarrow> ((pyval \<times> int) \<times> (datetime \<times> addr) list) list" where
  "group_step gd h g a =
     (case punch_key gd (h a) of None \<Rightarrow> g | Some (k, dt) \<Rightarrow> group_append k (dt, a) g)"

definition group_punches ::
  "(pyval \<Rightarrow> datetime option) \<Rightarrow> heap \<Rightarrow> addr list
     \<Rightarrow> ((pyval \<times> int) \<times> (datetime \<times> addr) list) list" where
  "group_punches gd h ts = foldl (group_step gd h) [] ts"

definition has_valid_label :: "transaction \<Rightarrow> bool" where
  "has_valid_label t =
     (case map_of t ''log_type'' of
        None \<Rightarrow> False
      | Some v \<Rightarrow> v = PStr ''IN'' \<or> v = PStr ''OUT'')"

definition set_label :: "string \<Rightarrow> addr \<Rightarrow> heap \<Rightarrow> heap" where
  "set_label l a h =
     h(a := AList.update ''_sequence_adjusted'' (PBool True)
              (AList.update ''log_type'' (PStr l) (h a)))"

text \<open>The loop over the punches strictly between the first and the last.\<close>

fun middle_loop :: "pyval \<Rightarrow> addr list \<Rightarrow> heap \<Rightarrow> heap" where
  "middle_loop prev_type [] h = h"
| "middle_loop prev_type (a # as) h =
     (if has_valid_label (h a) then middle_loop (log_type_of h a) as h
      else (let l = (if prev_type = PStr ''IN'' then ''OUT'' else ''IN'')
            in middle_loop (PStr l) as (set_label l a h)))"

text \<open>What the loop body does with the punches of one group once they are sorted.\<close>

definition label_sorted :: "addr list \<Rightarrow> heap \<Rightarrow> heap" where
  "label_sorted sorted_punches h =
     (case sorted_punches of
        [] \<Rightarrow> h
      | [punch] \<Rightarrow> (if \<not> has_valid_label (h punch) then set_label ''IN'' punch h else h)
      | first # rest \<Rightarrow>
          (let h1 = (if \<not> has_valid_label (h first) then set_label ''IN'' first h else h);
               lst = last rest;
               h2 = (if \<not> has_valid_label (h1 lst) then set_label ''OUT'' lst h1 else h1)
           in if length sorted_punches = 2 then h2
              else middle_loop (PStr ''IN'') (butlast rest) h2))"

definition process_group :: "(datetime \<times> addr) list \<Rightarrow> heap \<Rightarrow> heap" where
  "process_group punches h = label_sorted (map snd (sort_key fst punches)) h"

definition adjust_checkin_sequence ::
  "(pyval \<Rightarrow> datetime option) \<Rightarrow> addr list \<Rightarrow> heap \<Rightarrow> addr list \<times> heap" where
  "adjust_checkin_sequence gd transactions h =
     (if transactions = [] then (transactions, h)
      else (transactions,
            fold (\<lambda>(k, punches). process_group punches) (group_punches gd h transactions) h))"

section \<open>The Punch Normalizer of the outer copy\<close>

text \<open>
  \<open>adjust_checkin_sequence\<close> of
  \<open>zkteco_checkins_sync/zkteco_checkin_sync/doctype/zkteco_config/zkteco_config.py\<close>: it
  groups by employee code only, relabels every grouped punch by the parity of its position,
  and returns a new list sorted by punch time. \<open>list.sort\<close> compares the raw
  \<open>_punch_time\<close> values; comparing values of different kinds raises \<open>TypeError\<close>, which
  the function does not catch (the result \<open>None\<close>).
\<close>

definition employee_step ::
  "(pyval \<times> addr list) list \<times> heap \<Rightarrow> addr \<Rightarrow> (pyval \<times> addr list) list \<times> heap" where
  "employee_step gh a =
     (let g = fst gh; h = snd gh; t = h a;
          emp_code = (case map_of t ''emp_code'' of None \<Rightarrow> PStr ''unknown'' | Some v \<Rightarrow> v);
          punch_time = py_or (dict_get t ''punch_time'') (dict_get t ''timestamp'')
      in if truthy punch_time \<and> emp_code \<noteq> PStr ''unknown''
         then (group_append (py_key emp_code) a g,
               h(a := AList.update ''_punch_time'' punch_time t))
         else (g, h))"

fun is_time :: "pyval \<Rightarrow> bool" where
  "is_time (PTime t) = True"
| "is_time v = False"

fun is_str :: "pyval \<Rightarrow> bool" where
  "is_str (PStr s) = True"
| "is_str v = False"

fun is_num :: "pyval \<Rightarrow> bool" where
  "is_num (PInt i) = True"
| "is_num (PBool b) = True"
| "is_num v = False"

fun num_of :: "pyval \<Rightarrow> int" where
  "num_of (PInt i) = i"
| "num_of (PBool b) = (if b then 1 else 0)"
| "num_of (PTime t) = t"
| "num_of v = 0"

fun str_of :: "pyval \<Rightarrow> string" where
  "str_of (PStr s) = s"
| "str_of v = []"

text \<open>\<open>xs.sort(key=lambda x: x['_punch_time'])\<close>: stable, and defined only on comparable keys.\<close>

definition sort_by_punch_time :: "heap \<Rightarrow> addr list \<Rightarrow> addr list option" where
  "sort_by_punch_time h xs =
     (let key = (\<lambda>a. dict_get (h a) ''_punch_time'') in
      if length xs \<le> 1 then Some xs
      else if list_all (\<lambda>a. is_time (key a)) xs then Some (sort_key (\<lambda>a. num_of (key a)) xs)
      else if list_all (\<lambda>a. is_num (key a)) xs then Some (sort_key (\<lambda>a. num_of (key a)) xs)
      else if list_all (\<lambda>a. is_str (key a)) xs then Some (sort_key (\<lambda>a. str_of (key a)) xs)
      else None)"

definition label_by_parity :: "addr list \<Rightarrow> heap \<Rightarrow> heap" where
  "label_by_parity emp_txns h =
     fold (\<lambda>(i, a). set_label (if even i then ''IN'' else ''OUT'') a) (enumerate 0 emp_txns) h"

fun process_employees ::
  "(pyval \<times> addr list) list \<Rightarrow> heap \<Rightarrow> (addr list list \<times> heap) option" where
  "process_employees [] h = Some ([], h)"
| "process_employees ((emp_code, emp_txns) # g) h =
     (case sort_by_punch_time h emp_txns of
        None \<Rightarrow> None
      | Some sorted_txns \<Rightarrow>
          (case process_employees g (label_by_parity sorted_txns h) of
             None \<Rightarrow> None
           | Some (rest, h') \<Rightarrow> Some (sorted_txns # rest, h')))"

definition remove_punch_time :: "addr list \<Rightarrow> heap \<Rightarrow> heap" where
  "remove_punch_time result h = fold (\<lambda>a h. h(a := AList.delete ''_punch_time'' (h a))) result h"

definition adjust_checkin_sequence_outer :: "addr list \<Rightarrow> heap \<Rightarrow> (addr list \<times> heap) option" where
  "adjust_checkin_sequence_outer transactions h =
     (let gh = foldl employee_step ([], h) transactions in
      case process_employees (fst gh) (snd gh) of
        None \<Rightarrow> None
      | Some (groups, h1) \<Rightarrow>
          (case sort_by_punch_time h1 (concat groups) of
             None \<Rightarrow> None
           | Some result \<Rightarrow> Some (result, remove_punch_time result h1)))"

section \<open>Groups, chronological order and alternation\<close>

text \<open>
  The punches of a batch that belong to one (employee, calendar day) key, in input order and
  in chronological order (ties keep input order), and the strictly alternating label
  sequence \<open>IN, OUT, IN, OUT, \<dots>\<close> of a given length.
\<close>

definition group_members ::
  "(pyval \<Rightarrow> datetime option) \<Rightarrow> heap \<Rightarrow> addr list \<Rightarrow> (pyval \<times> int) \<Rightarrow> (datetime \<times> addr) list" where
  "group_members gd h ts k =
     concat (map (\<lambda>a. case punch_key gd (h a) of
                             None \<Rightarrow> []
                           | Some (k', dt) \<Rightarrow> if k' = k then [(dt, a)] else []) ts)"

definition chronological ::
  "(pyval \<Rightarrow> datetime option) \<Rightarrow> heap \<Rightarrow> addr list \<Rightarrow> (pyval \<times> int) \<Rightarrow> addr list" where
  "chronological gd h ts k = map snd (sort_key fst (group_members gd h ts k))"

definition alternation :: "nat \<Rightarrow> pyval list" where
  "alternation n = map (\<lambda>i. if even i then PStr ''IN'' else PStr ''OUT'') [0..<n]"

fun alt_labels :: "pyval \<Rightarrow> nat \<Rightarrow> pyval list" where
  "alt_labels p 0 = []"
| "alt_labels p (Suc n) =
     (let l = (if p = PStr ''IN'' then ''OUT'' else ''IN'') in PStr l # alt_labels (PStr l) n)"

text \<open>A punch of employee \<open>e\<close> that falls on a calendar day other than \<open>d\<close>.\<close>

definition other_day :: "(pyval \<Rightarrow> datetime option) \<Rightarrow> heap \<Rightarrow> pyval \<Rightarrow> int \<Rightarrow> addr \<Rightarrow> bool" where
  "other_day gd h e d a =
     (case punch_key gd (h a) of None \<Rightarrow> False | Some ((e', d'), dt) \<Rightarrow> e' = e \<and> d' \<noteq> d)"

section \<open>Stored attendance events\<close>

record checkin =
  ck_name :: string
  ck_employee :: string
  ck_time :: datetime
  ck_log_type :: pyval
  ck_device_id :: string

definition set_value :: "string \<Rightarrow> string \<Rightarrow> checkin list \<Rightarrow> checkin list" where
  "set_value nm l store = map (\<lambda>r. if ck_name r = nm then r\<lparr>ck_log_type := PStr l\<rparr> else r) store"

definition order_by_employee_time :: "checkin list \<Rightarrow> checkin list" where
  "order_by_employee_time rows = sort_key ck_employee (sort_key ck_time rows)"

definition group_checkins :: "checkin list \<Rightarrow> ((string \<times> int) \<times> checkin list) list" where
  "group_checkins checkins =
     foldl (\<lambda>g c. group_append (ck_employee c, date_key (ck_time c)) c g) [] checkins"

section \<open>fix_existing_checkins of zkteco_config.py\<close>

fun correct_loop :: "nat \<Rightarrow> nat \<Rightarrow> string \<Rightarrow> checkin list \<Rightarrow> (string \<times> string) list" where
  "correct_loop idx n prev [] = []"
| "correct_loop idx n prev (c # cs) =
     (let correct = (if idx = 0 then ''IN''
                     else if idx = n - 1 then ''OUT''
                     else if prev = ''IN'' then ''OUT'' else ''IN'')
      in (if ck_log_type c \<noteq> PStr correct then [(ck_name c, correct)] else [])
         @ correct_loop (Suc idx) n correct cs)"

definition daily_updates :: "checkin list \<Rightarrow> (string \<times> string) list" where
  "daily_updates daily_checkins =
     (let srt = sort_key ck_time daily_checkins in correct_loop 0 (length srt) [] srt)"

definition zkteco_checkins :: "checkin list \<Rightarrow> checkin list" where
  "zkteco_checkins store =
     order_by_employee_time (filter (\<lambda>r. contains '':4370'' (ck_device_id r)) store)"

definition computed_updates :: "checkin list \<Rightarrow> (string \<times> string) list" where
  "computed_updates checkins =
     concat (map (\<lambda>(k, daily). daily_updates daily) (group_checkins checkins))"

text \<open>
  The result is the \<open>updated_count\<close> of the returned dictionary, absent when no record was
  found, and the table after the updates.
\<close>

definition fix_existing_checkins :: "checkin list \<Rightarrow> nat option \<times> checkin list" where
  "fix_existing_checkins store =
     (let checkins = zkteco_checkins store
      in if checkins = [] then (None, store)
         else (let updates = computed_updates checkins
               in (Some (length updates), fold (\<lambda>(nm, l). set_value nm l) updates store)))"

section \<open>fix_all_checkins of fix_existing_checkins.py\<close>

definition date_2025_09_01 :: datetime where
  "date_2025_09_01 = 0"

text \<open>The loop of the multi-punch branch: the update instructions and the count of records already correct.\<close>

fun sequence_loop ::
  "nat \<Rightarrow> nat \<Rightarrow> string \<Rightarrow> checkin list \<Rightarrow> (string \<times> string) list \<times> nat" where
  "sequence_loop idx n prev [] = ([], 0)"
| "sequence_loop idx n prev (c # cs) =
     (let correct_log_type = (if idx = 0 then ''IN''
                     else if idx = n - 1 then ''OUT''
                     else if prev = ''IN'' then ''OUT'' else ''IN'');
          rest = sequence_loop (Suc idx) n correct_log_type cs
      in if ck_log_type c \<noteq> PStr correct_log_type
         then ((ck_name c, correct_log_type) # fst rest, snd rest)
         else (fst rest, Suc (snd rest)))"

definition daily_fix :: "checkin list \<Rightarrow> (string \<times> string) list \<times> nat" where
  "daily_fix daily_checkins =
     (let srt = sort_key ck_time daily_checkins in
      if length srt = 1 then
        (if ck_log_type (hd srt) \<noteq> PStr ''IN'' then ([(ck_name (hd srt), ''IN'')], 0) else ([], 1))
      else sequence_loop 0 (length srt) [] srt)"

definition analyse_groups ::
  "((string \<times> int) \<times> checkin list) list \<Rightarrow> (string \<times> string) list \<times> nat" where
  "analyse_groups grouped =
     foldl (\<lambda>acc (k, daily). (fst acc @ fst (daily_fix daily), snd acc + snd (daily_fix daily)))
           ([], 0) grouped"

text \<open>
  The four dictionaries the script returns: no record found, all records already correct,
  the dry run (updates needed, no change needed) and the applied run (updated, errors, no
  change needed). \<open>frappe.db.set_value\<close> is taken to succeed, so the error count is 0.
\<close>

datatype fix_result =
    No_records_found
  | All_records_already_correct
  | Dry_run nat nat
  | Updated nat nat nat

definition script_checkins :: "checkin list \<Rightarrow> checkin list" where
  "script_checkins store =
     order_by_employee_time
       (filter (\<lambda>r. contains ''111.88.28.220:4370'' (ck_device_id r) \<and> date_2025_09_01 \<le> ck_time r) store)"

definition fix_all_checkins :: "bool \<Rightarrow> checkin list \<Rightarrow> fix_result \<times> checkin list" where
  "fix_all_checkins dry_run store =
     (let checkins = script_checkins store
      in if checkins = [] then (No_records_found, store)
         else (let res = analyse_groups (group_checkins checkins);
                   updates_needed = fst res; no_change_needed = snd res
               in if updates_needed = [] then (All_records_already_correct, store)
                  else if dry_run then (Dry_run (length updates_needed) no_change_needed, store)
                  else (Updated (length updates_needed) 0 no_change_needed,
                        fold (\<lambda>(nm, l). set_value nm l) updates_needed store)))"


section \<open>What the repair pass expects of a stored day\<close>

text \<open>
  The labels the repair loops compute depend on positions only; \<open>expected\<close> pairs the
  records of a day, in time order, with them, \<open>mismatches\<close> are the update instructions,
  and \<open>upd\<close> is what applying a list of instructions does to one record.
\<close>

fun labels_from :: "nat \<Rightarrow> nat \<Rightarrow> string \<Rightarrow> nat \<Rightarrow> string list" where
  "labels_from idx n prev 0 = []"
| "labels_from idx n prev (Suc m) =
     (let correct = (if idx = 0 then ''IN''
                     else if idx = n - 1 then ''OUT''
                     else if prev = ''IN'' then ''OUT'' else ''IN'')
      in correct # labels_from (Suc idx) n correct m)"

definition mismatches :: "(checkin \<times> string) list \<Rightarrow> (string \<times> string) list" where
  "mismatches ps = map (\<lambda>(c, l). (ck_name c, l)) (filter (\<lambda>(c, l). ck_log_type c \<noteq> PStr l) ps)"

definition expected :: "checkin list \<Rightarrow> (checkin \<times> string) list" where
  "expected daily = (let srt = sort_key ck_time daily in zip srt (labels_from 0 (length srt) [] (length srt)))"

definition upd :: "(string \<times> string) list \<Rightarrow> checkin \<Rightarrow> checkin" where
  "upd ups r = (case map_of ups (ck_name r) of None \<Rightarrow> r | Some l \<Rightarrow> r\<lparr>ck_log_type := PStr l\<rparr>)"


definition targets :: "checkin list \<Rightarrow> (checkin \<times> string) list" where
  "targets rows = concat (map (\<lambda>(k, daily). expected daily) (group_checkins rows))"

definition label_only :: "(checkin \<Rightarrow> checkin) \<Rightarrow> bool" where
  "label_only f = (\<forall>r. ck_name (f r) = ck_name r \<and> ck_employee (f r) = ck_employee r
                      \<and> ck_time (f r) = ck_time r \<and> ck_device_id (f r) = ck_device_id r)"

section \<open>The Label Detector\<close>

text \<open>
  \<open>detect_log_type\<close> of the app package
  (\<open>zkteco_checkins_sync/zkteco_checkins_sync/zkteco_checkin_sync/doctype/zkteco_config/zkteco_config.py\<close>).
  The four stages are the four blocks of the function body; each returns \<open>None\<close> when it
  falls through to the next one.
\<close>

text \<open>\<open>not value and value not in [0, False]\<close>\<close>

definition skipped_value :: "pyval \<Rightarrow> bool" where
  "skipped_value v = (\<not> truthy v \<and> py_key v \<noteq> PInt 0)"

fun scan_values :: "py_runtime \<Rightarrow> transaction \<Rightarrow> string option" where
  "scan_values rt [] = None"
| "scan_values rt ((key, v) # items) =
     (if skipped_value v then scan_values rt items
      else (let value_str = py_strip (py_upper (py_str rt v)) in
            if list_ex (\<lambda>x. contains x value_str)
                 [''OUT'', ''CHECK OUT'', ''CHECKOUT'', ''CHK OUT'', ''CHKOUT'', ''OUTGOING'', ''EXIT'']
            then Some ''OUT''
            else if list_ex (\<lambda>x. contains x value_str)
                      [''IN'', ''CHECK IN'', ''CHECKIN'', ''CHK IN'', ''CHKIN'', ''ENTRY'']
            then Some ''IN''
            else scan_values rt items))"

definition field_checks :: "(string \<times> bool \<times> pyval \<times> pyval) list" where
  "field_checks =
     [(''log_type'', False, PStr ''OUT'', PStr ''IN''),
      (''punch_state'', True, PInt 1, PInt 0),
      (''punch'', True, PInt 1, PInt 0),
      (''punchtype'', True, PInt 1, PInt 0),
      (''type'', False, PStr ''OUT'', PStr ''IN''),
      (''direction'', False, PStr ''OUT'', PStr ''IN''),
      (''status'', False, PStr ''OUT'', PStr ''IN''),
      (''verify_type'', True, PInt 1, PInt 0)]"

fun check_fields ::
  "py_runtime \<Rightarrow> transaction \<Rightarrow> (string \<times> bool \<times> pyval \<times> pyval) list \<Rightarrow> string option" where
  "check_fields rt t [] = None"
| "check_fields rt t ((field, is_numeric, out_val, in_val) # rest) =
     (if map_of t field = None \<or> map_of t field = Some PNone then check_fields rt t rest
      else if is_numeric then
        (case py_int rt (dict_get t field) of
           None \<Rightarrow> check_fields rt t rest
         | Some val \<Rightarrow>
             if PInt val = py_key out_val then Some ''OUT''
             else if PInt val = py_key in_val then Some ''IN''
             else check_fields rt t rest)
      else
        (let val = py_strip (py_upper (py_str rt (dict_get t field)));
             out_val_upper = py_upper (py_str rt out_val);
             in_val_upper = py_upper (py_str rt in_val)
         in if val = out_val_upper then Some ''OUT''
            else if val = in_val_upper then Some ''IN''
            else check_fields rt t rest))"

text \<open>The Urdu phrases for "check out" and "check in", as UTF-8 bytes.\<close>

definition urdu_check_out :: string where
  "urdu_check_out = map char_of [218, 134, 219, 140, 218, 169, 32, 216, 162, 216, 164, 217, 185 :: nat]"

definition urdu_check_in :: string where
  "urdu_check_in = map char_of [218, 134, 219, 140, 218, 169, 32, 216, 167, 217, 134 :: nat]"

definition check_display :: "py_runtime \<Rightarrow> transaction \<Rightarrow> string option" where
  "check_display rt t =
     (let punch_state_display =
            py_strip (py_lower (py_str rt (case map_of t ''punch_state_display'' of
                                             None \<Rightarrow> PStr [] | Some v \<Rightarrow> v)))
      in if punch_state_display \<noteq> [] then
           (if list_ex (\<lambda>x. contains x punch_state_display)
                 [''out'', ''check out'', ''checkout'', urdu_check_out]
            then Some ''OUT''
            else if list_ex (\<lambda>x. contains x punch_state_display)
                      [''in'', ''check in'', ''checkin'', urdu_check_in]
            then Some ''IN''
            else None)
         else None)"

fun scan_keys :: "py_runtime \<Rightarrow> transaction \<Rightarrow> string option" where
  "scan_keys rt [] = None"
| "scan_keys rt ((key, v) # items) =
     (if skipped_value v then scan_keys rt items
      else (let key_lower = py_lower key in
            if contains ''punch'' key_lower \<or> contains ''state'' key_lower \<or> contains ''type'' key_lower
            then (let value_str = py_lower (py_str rt v) in
                  if list_ex (\<lambda>x. contains x value_str)
                       [''out'', ''check out'', ''checkout'', urdu_check_out]
                  then Some ''OUT''
                  else if list_ex (\<lambda>x. contains x value_str)
                            [''in'', ''check in'', ''checkin'', urdu_check_in]
                  then Some ''IN''
                  else scan_keys rt items)
            else scan_keys rt items))"

definition detect_log_type :: "py_runtime \<Rightarrow> transaction \<Rightarrow> string" where
  "detect_log_type rt transaction =
     (case scan_values rt transaction of
        Some l \<Rightarrow> l
      | None \<Rightarrow>
          (case check_fields rt transaction field_checks of
             Some l \<Rightarrow> l
           | None \<Rightarrow>
               (case check_display rt transaction of
                  Some l \<Rightarrow> l
                | None \<Rightarrow>
                    (case scan_keys rt transaction of
                       Some l \<Rightarrow> l
                     | None \<Rightarrow> ''IN''))))"

section \<open>The Label Detector of the outer copy\<close>

text \<open>
  \<open>detect_log_type\<close> of
  \<open>zkteco_checkins_sync/zkteco_checkin_sync/doctype/zkteco_config/zkteco_config.py\<close>,
  translated block by block from that file.
\<close>

fun scan_values_outer :: "py_runtime \<Rightarrow> transaction \<Rightarrow> string option" where
  "scan_values_outer rt [] = None"
| "scan_values_outer rt ((key, v) # items) =
     (if skipped_value v then scan_values_outer rt items
      else (let value_str = py_strip (py_upper (py_str rt v)) in
            if list_ex (\<lambda>x. contains x value_str)
                 [''OUT'', ''CHECK OUT'', ''CHECKOUT'', ''CHK OUT'', ''CHKOUT'', ''OUTGOING'', ''EXIT'']
            then Some ''OUT''
            else if list_ex (\<lambda>x. contains x value_str)
                      [''IN'', ''CHECK IN'', ''CHECKIN'', ''CHK IN'', ''CHKIN'', ''ENTRY'']
            then Some ''IN''
            else scan_values_outer rt items))"

definition field_checks_outer :: "(string \<times> bool \<times> pyval \<times> pyval) list" where
  "field_checks_outer =
     [(''log_type'', False, PStr ''OUT'', PStr ''IN''),
      (''punch_state'', True, PInt 1, PInt 0),
      (''punch'', True, PInt 1, PInt 0),
      (''punchtype'', True, PInt 1, PInt 0),
      (''type'', False, PStr ''OUT'', PStr ''IN''),
      (''direction'', False, PStr ''OUT'', PStr ''IN''),
      (''status'', False, PStr ''OUT'', PStr ''IN''),
      (''verify_type'', True, PInt 1, PInt 0)]"

fun check_fields_outer ::
  "py_runtime \<Rightarrow> transaction \<Rightarrow> (string \<times> bool \<times> pyval \<times> pyval) list \<Rightarrow> string option" where
  "check_fields_outer rt t [] = None"
| "check_fields_outer rt t ((field, is_numeric, out_val, in_val) # rest) =
     (if map_of t field = None \<or> map_of t field = Some PNone then check_fields_outer rt t rest
      else if is_numeric then
        (case py_int rt (dict_get t field) of
           None \<Rightarrow> check_fields_outer rt t rest
         | Some val \<Rightarrow>
             if PInt val = py_key out_val then Some ''OUT''
             else if PInt val = py_key in_val then Some ''IN''
             else check_fields_outer rt t rest)
      else
        (let val = py_strip (py_upper (py_str rt (dict_get t field)));
             out_val_upper = py_upper (py_str rt out_val);
             in_val_upper = py_upper (py_str rt in_val)
         in if val = out_val_upper then Some ''OUT''
            else if val = in_val_upper then Some ''IN''
            else check_fields_outer rt t rest))"

definition check_display_outer :: "py_runtime \<Rightarrow> transaction \<Rightarrow> string option" where
  "check_display_outer rt t =
     (let punch_state_display =
            py_strip (py_lower (py_str rt (case map_of t ''punch_state_display'' of
                                             None \<Rightarrow> PStr [] | Some v \<Rightarrow> v)))
      in if punch_state_display \<noteq> [] then
           (if list_ex (\<lambda>x. contains x punch_state_display)
                 [''out'', ''check out'', ''checkout'', urdu_check_out]
            then Some ''OUT''
            else if list_ex (\<lambda>x. contains x punch_state_display)
                      [''in'', ''check in'', ''checkin'', urdu_check_in]
            then Some ''IN''
            else None)
         else None)"

fun scan_keys_outer :: "py_runtime \<Rightarrow> transaction \<Rightarrow> string option" where
  "scan_keys_outer rt [] = None"
| "scan_keys_outer rt ((key, v) # items) =
     (if skipped_value v then scan_keys_outer rt items
      else (let key_lower = py_lower key in
            if contains ''punch'' key_lower \<or> contains ''state'' key_lower \<or> contains ''type'' key_lower
            then (let value_str = py_lower (py_str rt v) in
                  if list_ex (\<lambda>x. contains x value_str)
                       [''out'', ''check out'', ''checkout'', urdu_check_out]
                  then Some ''OUT''
                  else if list_ex (\<lambda>x. contains x value_str)
                            [''in'', ''check in'', ''checkin'', urdu_check_in]
                  then Some ''IN''
                  else scan_keys_outer rt items)
            else scan_keys_outer rt items))"

definition detect_log_type_outer :: "py_runtime \<Rightarrow> transaction \<Rightarrow> string" where
  "detect_log_type_outer rt transaction =
     (case scan_values_outer rt transaction of
        Some l \<Rightarrow> l
      | None \<Rightarrow>
          (case check_fields_outer rt transaction field_checks_outer of
             Some l \<Rightarrow> l
           | None \<Rightarrow>
               (case check_display_outer rt transaction of
                  Some l \<Rightarrow> l
                | None \<Rightarrow>
                    (case scan_keys_outer rt transaction of
                       Some l \<Rightarrow> l
                     | None \<Rightarrow> ''IN''))))"

section \<open>The framework and the store, as the Upsert Gate sees them\<close>

text \<open>
  What the sources call and do not define. \<open>now_datetime\<close> is one reading of the clock for
  a whole call of the gate. \<open>strptime value fmt\<close> is \<open>datetime.strptime\<close> followed by the
  removal of the time zone (\<open>None\<close> for \<open>ValueError\<close>). \<open>fromtimestamp\<close> takes microseconds
  and may succeed, raise an exception the caller catches, or raise one it does not.
  \<open>get_employee field code\<close> is \<open>frappe.db.get_value("Employee", {field: code}, "name")\<close>.
  \<open>insert_checkin\<close> is \<open>frappe.get_doc(\<dots>).insert(\<dots>)\<close> with the commit: it returns the new
  table, or raises \<open>frappe.DuplicateEntryError\<close>, or raises something else.
\<close>

datatype timestamp_result = Ts_ok datetime | Ts_caught | Ts_uncaught

datatype insert_result = Inserted "checkin list" | Duplicate_entry | Insert_failed

record frappe_env =
  now_datetime :: datetime
  get_datetime :: "pyval \<Rightarrow> datetime option"
  strptime :: "string \<Rightarrow> string \<Rightarrow> datetime option"
  fromtimestamp :: "int \<Rightarrow> timestamp_result"
  get_employee :: "string \<Rightarrow> pyval \<Rightarrow> string option"
  has_attendance_device_id :: bool
  insert_checkin :: "checkin \<Rightarrow> checkin list \<Rightarrow> insert_result"
  runtime :: py_runtime

datatype raised = DuplicateEntryError | UnboundLocalError | OtherException

definition find_employee_by_code :: "frappe_env \<Rightarrow> pyval \<Rightarrow> string option" where
  "find_employee_by_code env emp_code =
     (case get_employee env ''employee'' emp_code of
        Some employee \<Rightarrow> if employee \<noteq> [] then Some employee else
          (case get_employee env ''user_id'' emp_code of
             Some employee \<Rightarrow> if employee \<noteq> [] then Some employee else
               (if has_attendance_device_id env then
                  (case get_employee env ''attendance_device_id'' emp_code of
                     Some employee \<Rightarrow> if employee \<noteq> [] then Some employee else None
                   | None \<Rightarrow> None)
                else None)
           | None \<Rightarrow>
               (if has_attendance_device_id env then
                  (case get_employee env ''attendance_device_id'' emp_code of
                     Some employee \<Rightarrow> if employee \<noteq> [] then Some employee else None
                   | None \<Rightarrow> None)
                else None))
      | None \<Rightarrow>
          (case get_employee env ''user_id'' emp_code of
             Some employee \<Rightarrow> if employee \<noteq> [] then Some employee else
               (if has_attendance_device_id env then
                  (case get_employee env ''attendance_device_id'' emp_code of
                     Some employee \<Rightarrow> if employee \<noteq> [] then Some employee else None
                   | None \<Rightarrow> None)
                else None)
           | None \<Rightarrow>
               (if has_attendance_device_id env then
                  (case get_employee env ''attendance_device_id'' emp_code of
                     Some employee \<Rightarrow> if employee \<noteq> [] then Some employee else None
                   | None \<Rightarrow> None)
                else None)))"

section \<open>The Upsert Gate of the app package: create_employee_checkin\<close>

text \<open>\<open>transaction.get(key, '')\<close>\<close>

definition dict_get_str :: "transaction \<Rightarrow> string \<Rightarrow> pyval" where
  "dict_get_str t k = (case map_of t k of None \<Rightarrow> PStr [] | Some v \<Rightarrow> v)"

definition emp_code_of :: "py_runtime \<Rightarrow> transaction \<Rightarrow> pyval" where
  "emp_code_of rt t =
     py_or (dict_get t ''emp_code'') (py_or (dict_get t ''employee_code'')
       (py_or (dict_get t ''employee_no'')
          (PStr (takeWhile (\<lambda>c. c \<noteq> CHR ''_'') (py_str rt (dict_get_str t ''id''))))))"

definition time_fields :: "string list" where
  "time_fields = [''punch_time'', ''punchTime'', ''punchtime'', ''time'',
                  ''timestamp'', ''punchTimeStr'', ''checktime'', ''record_time'']"

definition time_formats :: "string list" where
  "time_formats =
     [''%Y-%m-%d %H:%M:%S'', ''%Y-%m-%dT%H:%M:%S'', ''%Y-%m-%d %H:%M'', ''%Y-%m-%d'',
      ''%Y/%m/%d %H:%M:%S'', ''%d-%m-%Y %H:%M:%S'', ''%d/%m/%Y %H:%M:%S'', ''%Y%m%d%H%M%S'',
      ''%Y%m%d'', ''%d.%m.%Y %H:%M:%S'', ''%b %d %Y %H:%M:%S'', ''%b %d %Y %H:%M:%S.%f'',
      ''%Y-%m-%d %H:%M:%S.%f'', ''%Y-%m-%d %H:%M:%S%z'', ''%Y-%m-%dT%H:%M:%S%z'']"

text \<open>The loop over the formats: the first one that parses.\<close>

fun first_format :: "frappe_env \<Rightarrow> string \<Rightarrow> string list \<Rightarrow> datetime option" where
  "first_format env v [] = None"
| "first_format env v (fmt # fmts) =
     (case strptime env v fmt of Some dt \<Rightarrow> Some dt | None \<Rightarrow> first_format env v fmts)"

text \<open>
  A numeric timestamp is seconds, or milliseconds when above \<open>1e12\<close>; \<open>True\<close> is the
  integer 1.
\<close>

definition numeric_timestamp :: "frappe_env \<Rightarrow> int \<Rightarrow> timestamp_result" where
  "numeric_timestamp env ts =
     (if ts > 1000000000000 then fromtimestamp env (ts * 1000) else fromtimestamp env (ts * 1000000))"

text \<open>
  The loop over the time fields. \<open>Ts_ok\<close> is the parsed punch time, \<open>Ts_caught\<close> means that
  no field gave one, \<open>Ts_uncaught\<close> that an exception left the loop.
\<close>

fun find_punch_time :: "frappe_env \<Rightarrow> string list \<Rightarrow> transaction \<Rightarrow> string list \<Rightarrow> timestamp_result" where
  "find_punch_time env fmts t [] = Ts_caught"
| "find_punch_time env fmts t (field # later) =
     (case map_of t field of
        None \<Rightarrow> find_punch_time env fmts t later
      | Some v \<Rightarrow>
          if \<not> truthy v then find_punch_time env fmts t later
          else (case v of
                  PStr s \<Rightarrow>
                    (if py_strip s = [] then find_punch_time env fmts t later
                     else (case first_format env (py_strip s) fmts of
                             Some dt \<Rightarrow> Ts_ok dt
                           | None \<Rightarrow> find_punch_time env fmts t later))
                | PInt i \<Rightarrow>
                    (case numeric_timestamp env i of
                       Ts_ok dt \<Rightarrow> Ts_ok dt
                     | Ts_caught \<Rightarrow> find_punch_time env fmts t later
                     | Ts_uncaught \<Rightarrow> Ts_uncaught)
                | PBool b \<Rightarrow>
                    (case numeric_timestamp env 1 of
                       Ts_ok dt \<Rightarrow> Ts_ok dt
                     | Ts_caught \<Rightarrow> find_punch_time env fmts t later
                     | Ts_uncaught \<Rightarrow> Ts_uncaught)
                | PTime dt \<Rightarrow> Ts_ok dt
                | PNone \<Rightarrow> find_punch_time env fmts t later))"

definition device_id_of :: "py_runtime \<Rightarrow> transaction \<Rightarrow> pyval" where
  "device_id_of rt t =
     py_or (dict_get t ''terminal_alias'') (py_or (dict_get t ''terminal_sn'')
       (py_or (dict_get t ''device_alias'') (py_or (dict_get t ''device_id'')
          (py_or (PStr (py_str rt (dict_get_str t ''ip_address'') @ '':''
                        @ py_str rt (dict_get_str t ''port'')))
                 (PStr ''Unknown'')))))"

definition transaction_id_of :: "transaction \<Rightarrow> pyval" where
  "transaction_id_of t =
     py_or (dict_get t ''id'') (py_or (dict_get t ''transaction_id'')
       (py_or (dict_get t ''uid'') (PStr ''unknown'')))"

text \<open>
  The first \<open>try\<close> block: employee code, punch time, device and transaction identifiers, and
  the first range check (one day ahead, ninety days back). \<open>None\<close> is \<open>return False\<close>.
\<close>

definition extract_transaction ::
  "frappe_env \<Rightarrow> transaction \<Rightarrow> (pyval \<times> datetime \<times> pyval \<times> pyval) option" where
  "extract_transaction env t =
     (let emp_code = emp_code_of (runtime env) t in
      case find_punch_time env time_formats t time_fields of
        Ts_caught \<Rightarrow> None
      | Ts_uncaught \<Rightarrow> None
      | Ts_ok punch_time \<Rightarrow>
          (let device_id = device_id_of (runtime env) t;
               transaction_id = transaction_id_of t;
               now = now_datetime env
           in if \<not> truthy emp_code then None
              else if punch_time > now + timedelta_days 1 then None
              else if now - punch_time > timedelta_days 90 then None
              else Some (emp_code, punch_time, device_id, transaction_id)))"

definition resolve_log_type :: "py_runtime \<Rightarrow> transaction \<Rightarrow> pyval" where
  "resolve_log_type rt t =
     (if dict_get t ''_sequence_adjusted'' \<noteq> PNone \<and> truthy (dict_get t ''log_type'')
      then dict_get t ''log_type''
      else PStr (detect_log_type rt t))"

text \<open>
  The stored device identifier, cut to 135 characters and three dots when longer than 140
  (characters are bytes here, which is exact for ASCII identifiers).
\<close>

definition unique_device_id_of :: "py_runtime \<Rightarrow> pyval \<Rightarrow> pyval \<Rightarrow> string" where
  "unique_device_id_of rt device_id transaction_id =
     (let unique_device_id =
            (if truthy device_id \<and> truthy transaction_id
             then py_str rt device_id @ '' (ZKTeco-'' @ py_str rt transaction_id @ '')''
             else if truthy transaction_id
                  then (if truthy device_id then py_str rt device_id
                        else ''ZKTeco-'' @ py_str rt transaction_id)
                  else ''ZKTeco Device'')
      in if length unique_device_id > 140 then take 135 unique_device_id @ ''...''
         else unique_device_id)"

definition truncate_seconds :: "datetime \<Rightarrow> datetime" where
  "truncate_seconds dt = strftime_seconds dt * 1000000"

text \<open>
  The lookup \<open>frappe.db.get_value("Employee Checkin", {\<dots>})\<close>. The pattern of the \<open>like\<close>
  filter is the device identifier between two \<open>%\<close>, which asks for a substring. The model
  is the literal, case-sensitive substring test: it agrees with the database for device
  identifiers that hold no wildcard (\<open>_\<close> or \<open>%\<close>) of their own, under a collation that
  distinguishes letter case.
\<close>

definition existing_checkin ::
  "py_runtime \<Rightarrow> string \<Rightarrow> datetime \<Rightarrow> pyval \<Rightarrow> pyval \<Rightarrow> checkin list \<Rightarrow> bool" where
  "existing_checkin rt employee checkin_time log_type device_id store =
     list_ex (\<lambda>r. ck_employee r = employee \<and> ck_time r = checkin_time \<and> ck_log_type r = log_type
                   \<and> contains (if truthy device_id then py_str rt device_id else ''ZKTeco'')
                               (ck_device_id r)) store"

text \<open>
  From the second range check (five minutes ahead, ninety days back) to the insert: the rest
  of the outer \<open>try\<close> block, the same text in both copies of the file. \<open>Inl\<close> is an exception
  that reaches the handlers of the outer \<open>try\<close>.
\<close>

definition check_and_insert ::
  "frappe_env \<Rightarrow> transaction \<Rightarrow> string \<Rightarrow> datetime \<Rightarrow> pyval \<Rightarrow> pyval \<Rightarrow> checkin list
     \<Rightarrow> (raised + bool) \<times> checkin list" where
  "check_and_insert env t employee punch_datetime device_id transaction_id store =
     (let current_time = now_datetime env in
      if punch_datetime > current_time + timedelta_minutes 5 then (Inr False, store)
      else if punch_datetime < current_time - timedelta_days 90 then (Inr False, store)
      else (let log_type = resolve_log_type (runtime env) t;
                unique_device_id = unique_device_id_of (runtime env) device_id transaction_id;
                checkin_time = truncate_seconds punch_datetime
            in if existing_checkin (runtime env) employee checkin_time log_type device_id store
               then (Inr True, store)
               else (case insert_checkin env
                            \<lparr>ck_name = [], ck_employee = employee, ck_time = checkin_time,
                             ck_log_type = log_type, ck_device_id = unique_device_id\<rparr> store of
                       Inserted store' \<Rightarrow> (Inr True, store')
                     | Duplicate_entry \<Rightarrow> (Inl DuplicateEntryError, store)
                     | Insert_failed \<Rightarrow> (Inl OtherException, store))))"

text \<open>
  \<open>create_employee_checkin\<close> of the app package. Its handler
  \<open>except frappe.DuplicateEntryError:\<close> binds no name and then formats \<open>str(e)\<close>; \<open>e\<close> is a
  local variable of the function (other handlers bind it) and is unbound there, so the
  handler raises \<open>UnboundLocalError\<close> before it logs, rolls back or returns.
\<close>

definition create_employee_checkin ::
  "frappe_env \<Rightarrow> transaction \<Rightarrow> checkin list \<Rightarrow> (raised + bool) \<times> checkin list" where
  "create_employee_checkin env t store =
     (case extract_transaction env t of
        None \<Rightarrow> (Inr False, store)
      | Some (emp_code, punch_time, device_id, transaction_id) \<Rightarrow>
          (case find_employee_by_code env emp_code of
             None \<Rightarrow> (Inr False, store)
           | Some employee \<Rightarrow>
               (case check_and_insert env t employee punch_time device_id transaction_id store of
                  (Inr b, store') \<Rightarrow> (Inr b, store')
                | (Inl DuplicateEntryError, store') \<Rightarrow> (Inl UnboundLocalError, store')
                | (Inl x, store') \<Rightarrow> (Inr False, store'))))"

section \<open>The Upsert Gate of the outer copy: create_employee_checkin\<close>

definition emp_code_of_outer :: "transaction \<Rightarrow> pyval" where
  "emp_code_of_outer t =
     py_or (dict_get t ''emp_code'') (py_or (dict_get t ''user_id'')
       (py_or (dict_get t ''pin'') (py_or (dict_get t ''employee_code'') (dict_get t ''id''))))"

definition time_fields_outer :: "string list" where
  "time_fields_outer = [''punch_time'', ''punchTime'', ''timestamp'', ''datetime'',
                        ''date_time'', ''check_time'', ''time'', ''created_at'']"

definition time_formats_outer :: "string list" where
  "time_formats_outer =
     [''%Y-%m-%d %H:%M:%S'', ''%Y-%m-%d %H:%M:%S.%f'', ''%Y-%m-%d %H:%M:%S%z'',
      ''%Y-%m-%dT%H:%M:%S'', ''%Y-%m-%dT%H:%M:%S.%f'', ''%Y-%m-%dT%H:%M:%S%z'',
      ''%Y-%m-%dT%H:%M:%SZ'', ''%Y-%m-%d'', ''%Y-%m-%d %H:%M'', ''%m/%d/%Y %H:%M:%S'',
      ''%m/%d/%Y %H:%M'', ''%d/%m/%Y %H:%M:%S'', ''%d/%m/%Y %H:%M'']"

definition extract_transaction_outer ::
  "frappe_env \<Rightarrow> transaction \<Rightarrow> (pyval \<times> datetime \<times> pyval \<times> pyval) option" where
  "extract_transaction_outer env t =
     (let emp_code = emp_code_of_outer t in
      if \<not> truthy emp_code then None
      else (case find_punch_time env time_formats_outer t time_fields_outer of
              Ts_caught \<Rightarrow> None
            | Ts_uncaught \<Rightarrow> None
            | Ts_ok punch_time \<Rightarrow>
                (let device_id = device_id_of (runtime env) t;
                     transaction_id = transaction_id_of t;
                     now = now_datetime env
                 in if punch_time > now + timedelta_days 1 then None
                    else if now - punch_time > timedelta_days 90 then None
                    else Some (emp_code, punch_time, device_id, transaction_id))))"

text \<open>
  \<open>create_employee_checkin\<close> of the outer copy. Its handler reads
  \<open>except frappe.DuplicateEntryError as e:\<close>, logs, rolls back and returns \<open>True\<close>.
\<close>

definition create_employee_checkin_outer ::
  "frappe_env \<Rightarrow> transaction \<Rightarrow> checkin list \<Rightarrow> (raised + bool) \<times> checkin list" where
  "create_employee_checkin_outer env t store =
     (case extract_transaction_outer env t of
        None \<Rightarrow> (Inr False, store)
      | Some (emp_code, punch_time, device_id, transaction_id) \<Rightarrow>
          (case find_employee_by_code env emp_code of
             None \<Rightarrow> (Inr False, store)
           | Some employee \<Rightarrow>
               (case check_and_insert env t employee punch_time device_id transaction_id store of
                  (Inr b, store') \<Rightarrow> (Inr b, store')
                | (Inl DuplicateEntryError, store') \<Rightarrow> (Inr True, store')
                | (Inl x, store') \<Rightarrow> (Inr False, store'))))"

section \<open>The Upsert Gate of device mode: create_checkin_from_attendance_v2\<close>

text \<open>
  The same text in both copies of the file. The punch time is compared as it is, so a value
  that is not a date-time raises \<open>TypeError\<close>, which the handler turns into \<open>False\<close>. The
  lookup \<open>frappe.db.exists\<close> is exact on all four fields.
\<close>

definition create_checkin_from_attendance_v2 ::
  "frappe_env \<Rightarrow> transaction \<Rightarrow> string \<Rightarrow> checkin list \<Rightarrow> bool \<times> checkin list" where
  "create_checkin_from_attendance_v2 env t device_id store =
     (let emp_code = dict_get t ''emp_code'' in
      if \<not> truthy emp_code then (False, store)
      else (case find_employee_by_code env emp_code of
              None \<Rightarrow> (False, store)
            | Some employee \<Rightarrow>
                (let punch_datetime = py_or (dict_get t ''punch_time'') (dict_get t ''timestamp'') in
                 if \<not> truthy punch_datetime then (False, store)
                 else (case punch_datetime of
                         PTime dt \<Rightarrow>
                           (let current_time = now_datetime env in
                            if dt > current_time + timedelta_minutes 5 then (False, store)
                            else if dt < current_time - timedelta_days 90 then (False, store)
                            else (let log_type = (case map_of t ''log_type'' of
                                                    None \<Rightarrow> PStr ''IN'' | Some v \<Rightarrow> v)
                                  in if list_ex (\<lambda>r. ck_employee r = employee \<and> ck_time r = dt
                                                      \<and> ck_device_id r = device_id
                                                      \<and> ck_log_type r = log_type) store
                                     then (True, store)
                                     else (case insert_checkin env
                                                  \<lparr>ck_name = [], ck_employee = employee,
                                                   ck_time = dt, ck_log_type = log_type,
                                                   ck_device_id = device_id\<rparr> store of
                                             Inserted store' \<Rightarrow> (True, store')
                                           | Duplicate_entry \<Rightarrow> (False, store)
                                           | Insert_failed \<Rightarrow> (False, store))))
                       | _ \<Rightarrow> (False, store)))))"

section \<open>The sync pass of the app package: sync_zkteco_transactions\<close>



section \<open>The time window and what acceptance needs\<close>

text \<open>
  A punch time outside the window of the gate: more than five minutes after the clock
  reading or more than ninety days before it. A store whose inserts always succeed appends
  the record under some name.
\<close>

definition outside_window :: "frappe_env \<Rightarrow> datetime \<Rightarrow> bool" where
  "outside_window env pt =
     (pt > now_datetime env + timedelta_minutes 5 \<or> pt < now_datetime env - timedelta_days 90)"

definition inserts_succeed :: "frappe_env \<Rightarrow> bool" where
  "inserts_succeed env =
     (\<forall>r store. \<exists>nm. insert_checkin env r store = Inserted (store @ [r\<lparr>ck_name := nm\<rparr>]))"

definition persisted :: "string \<Rightarrow> datetime \<Rightarrow> checkin list \<Rightarrow> bool" where
  "persisted employee pt store =
     list_ex (\<lambda>r. ck_employee r = employee \<and> ck_time r = truncate_seconds pt) store"

section \<open>The stored-state invariant and the batches that keep it\<close>
















section \<open>Concrete batches\<close>

text \<open>
  \<open>get_datetime\<close> on values that already are date-times; a store holding the dictionaries
  of a list at the addresses \<open>0, 1, \<dots>\<close>; a punch with an employee code and a time, and
  one that also carries a label.
\<close>

definition gd_std :: "pyval \<Rightarrow> datetime option" where
  "gd_std v = (case v of PTime d \<Rightarrow> Some d | _ \<Rightarrow> None)"

definition heap_of :: "transaction list \<Rightarrow> heap" where
  "heap_of xs a = (if a < length xs then xs ! a else [])"

definition punch :: "string \<Rightarrow> datetime \<Rightarrow> transaction" where
  "punch e t = [(''emp_code'', PStr e), (''punch_time'', PTime t)]"

definition labelled_punch :: "string \<Rightarrow> datetime \<Rightarrow> string \<Rightarrow> transaction" where
  "labelled_punch e t l = [(''emp_code'', PStr e), (''punch_time'', PTime t), (''log_type'', PStr l)]"

definition clock :: "int \<Rightarrow> int \<Rightarrow> datetime" where
  "clock hh mm = (hh * 60 + mm) * 60000000"

definition three_punches :: heap where
  "three_punches = heap_of [punch ''E1'' (clock 9 0), punch ''E1'' (clock 13 0), punch ''E1'' (clock 18 0)]"

definition four_punches :: heap where
  "four_punches = heap_of [punch ''E1'' (clock 9 0), punch ''E1'' (clock 13 0),
                           punch ''E1'' (clock 13 30), punch ''E1'' (clock 18 0)]"

definition two_labelled :: heap where
  "two_labelled = heap_of [labelled_punch ''E1'' (clock 9 0) ''OUT'', labelled_punch ''E1'' (clock 13 0) ''IN'']"

definition two_days :: heap where
  "two_days = heap_of [punch ''E1'' (clock 9 0), punch ''E1'' (clock 33 0)]"

definition late_first :: heap where
  "late_first = heap_of [punch ''E1'' (clock 18 0), punch ''E1'' (clock 9 0)]"

text \<open>What the outer copy returns, read off at one punch and as a list.\<close>

definition outer_label :: "addr list \<Rightarrow> heap \<Rightarrow> addr \<Rightarrow> pyval option" where
  "outer_label ts h a =
     (case adjust_checkin_sequence_outer ts h of None \<Rightarrow> None | Some (r, h') \<Rightarrow> Some (log_type_of h' a))"

definition outer_result :: "addr list \<Rightarrow> heap \<Rightarrow> addr list option" where
  "outer_result ts h =
     (case adjust_checkin_sequence_outer ts h of None \<Rightarrow> None | Some (r, h') \<Rightarrow> Some r)"

text \<open>
  A stored event of the device \<open>111.88.28.220:4370\<close>, and a table of four events that
  all read IN: three of one employee on one day, given out of time order, and one of
  another employee.
\<close>

definition ck :: "string \<Rightarrow> string \<Rightarrow> datetime \<Rightarrow> string \<Rightarrow> checkin" where
  "ck nm e t l = \<lparr>ck_name = nm, ck_employee = e, ck_time = t, ck_log_type = PStr l,
                  ck_device_id = ''111.88.28.220:4370''\<rparr>"

definition mislabelled_table :: "checkin list" where
  "mislabelled_table =
     [ck ''CHK-1'' ''E1'' (clock 13 0) ''IN'', ck ''CHK-2'' ''E1'' (clock 9 0) ''IN'',
      ck ''CHK-3'' ''E1'' (clock 18 0) ''IN'', ck ''CHK-4'' ''E2'' (clock 9 0) ''IN'']"

text \<open>A runtime for concrete inputs: decimal digit strings as integers, no date-time text.\<close>

definition digits_value :: "string \<Rightarrow> nat" where
  "digits_value s = foldl (\<lambda>n c. 10 * n + (of_char c - 48)) 0 s"

definition plain_runtime :: py_runtime where
  "plain_runtime =
     \<lparr>str_of_datetime = (\<lambda>t. []),
      int_of_string = (\<lambda>s. if s \<noteq> [] \<and> list_all (\<lambda>c. 48 \<le> (of_char c :: nat) \<and> (of_char c :: nat) \<le> 57) s
                            then Some (int (digits_value s)) else None)\<rparr>"

text \<open>
  A framework for concrete inputs: the clock reads \<open>now\<close>, only values that already are
  date-times parse, the employee field of the Employee table holds the codes \<open>E1\<close> and
  \<open>E2\<close> under the names \<open>HR-EMP-E1\<close> and \<open>HR-EMP-E2\<close>, and an insert appends the record
  under a fresh name.
\<close>

definition append_checkin :: "checkin \<Rightarrow> checkin list \<Rightarrow> insert_result" where
  "append_checkin r store =
     Inserted (store @ [r\<lparr>ck_name := ''CHK-'' @ digits_of_nat (length store)\<rparr>])"

definition employee_table :: "string \<Rightarrow> pyval \<Rightarrow> string option" where
  "employee_table field code =
     (if field = ''employee'' \<and> (code = PStr ''E1'' \<or> code = PStr ''E2'')
      then Some (''HR-EMP-'' @ str_of code) else None)"

definition test_env :: "datetime \<Rightarrow> frappe_env" where
  "test_env now =
     \<lparr>now_datetime = now, get_datetime = gd_std, strptime = (\<lambda>v fmt. None),
      fromtimestamp = (\<lambda>ts. Ts_caught), get_employee = employee_table,
      has_attendance_device_id = False, insert_checkin = append_checkin,
      runtime = plain_runtime\<rparr>"

text \<open>The same framework with a store that answers every insert with a duplicate-entry error.\<close>

definition duplicate_env :: "datetime \<Rightarrow> frappe_env" where
  "duplicate_env now = (test_env now)\<lparr>insert_checkin := (\<lambda>r store. Duplicate_entry)\<rparr>"


text \<open>
  A normalized punch whose terminal alias has 136 characters: with the transaction
  identifier the composite device identifier has 147 characters and is cut to 135 characters
  and three dots.
\<close>

definition long_alias_punch :: transaction where
  "long_alias_punch =
     [(''emp_code'', PStr ''E1''), (''punch_time'', PTime (clock 9 0)),
      (''terminal_alias'', PStr (replicate 136 (CHR ''A''))), (''id'', PInt 1),
      (''log_type'', PStr ''IN''), (''_sequence_adjusted'', PBool True)]"

definition stored_long_alias :: "string \<Rightarrow> checkin" where
  "stored_long_alias nm =
     \<lparr>ck_name = nm, ck_employee = ''HR-EMP-E1'', ck_time = clock 9 0, ck_log_type = PStr ''IN'',
      ck_device_id = replicate 135 (CHR ''A'') @ ''...''\<rparr>"





text \<open>
  API mode: the records of \<open>response.json()\<close> carry the punch time as a string. A framework
  that parses the string \<open>2025-09-01 10:04:00\<close>, a record with that punch time, and the
  record as \<open>adjust_checkin_sequence\<close> hands it to the gate.
\<close>

definition api_time :: string where
  "api_time = ''2025-09-01 10:04:00''"

definition api_env :: "datetime \<Rightarrow> frappe_env" where
  "api_env now =
     (test_env now)
       \<lparr>get_datetime := (\<lambda>v. if v = PStr api_time then Some (clock 10 4) else gd_std v),
        strptime := (\<lambda>v fmt. if v = api_time \<and> fmt = ''%Y-%m-%d %H:%M:%S''
                               then Some (clock 10 4) else None)\<rparr>"

definition api_punch :: transaction where
  "api_punch = [(''emp_code'', PStr ''E1''), (''punch_time'', PStr api_time)]"

definition api_normalized :: transaction where
  "api_normalized =
     snd (adjust_checkin_sequence (get_datetime (api_env (clock 10 0))) [0] (heap_of [api_punch])) 0"
section \<open>Grouping: what the loop over the batch builds\<close>

lemma group_append_keys:
  "map fst (group_append k v g) = (if k \<in> fst ` set g then map fst g else map fst g @ [k])"
  by (induction g) (force+)

lemma group_append_distinct:
  "distinct (map fst g) \<Longrightarrow> distinct (map fst (group_append k v g))"
  by (simp add: group_append_keys)

lemma group_append_map_of:
  "map_of (group_append k v g) k' =
     (if k' = k then Some ((case map_of g k of None \<Rightarrow> [] | Some vs \<Rightarrow> vs) @ [v])
      else map_of g k')"
  by (induction g) (auto)

lemma group_members_snoc:
  "group_members gd h (ts @ [a]) k =
     group_members gd h ts k @
       (case punch_key gd (h a) of None \<Rightarrow> []
        | Some (k', dt) \<Rightarrow> if k' = k then [(dt, a)] else [])"
  by (simp add: group_members_def)

lemma group_punches_snoc:
  "group_punches gd h (ts @ [a]) = group_step gd h (group_punches gd h ts) a"
  by (simp add: group_punches_def)

lemma group_punches_distinct: "distinct (map fst (group_punches gd h ts))"
proof (induction ts rule: rev_induct)
  case Nil
  then show ?case by (simp add: group_punches_def)
next
  case (snoc a ts)
  then show ?case
    by (auto simp: group_punches_snoc group_step_def group_append_distinct split: option.splits)
qed

lemma group_punches_map_of:
  "map_of (group_punches gd h ts) k =
     (if group_members gd h ts k = [] then None else Some (group_members gd h ts k))"
proof (induction ts rule: rev_induct)
  case Nil
  then show ?case by (simp add: group_punches_def group_members_def)
next
  case (snoc a ts)
  show ?case
  proof (cases "punch_key gd (h a)")
    case None
    then show ?thesis using snoc
      by (simp add: group_punches_snoc group_step_def group_members_snoc)
  next
    case (Some p)
    obtain k' dt where p: "p = (k', dt)" by (cases p)
    show ?thesis using snoc Some p
      by (auto simp: group_punches_snoc group_step_def group_members_snoc group_append_map_of)
  qed
qed

lemma group_punches_in:
  "(k, ps) \<in> set (group_punches gd h ts) \<longleftrightarrow> ps = group_members gd h ts k \<and> ps \<noteq> []"
proof -
  have "(k, ps) \<in> set (group_punches gd h ts) \<longleftrightarrow> map_of (group_punches gd h ts) k = Some ps"
    using group_punches_distinct[of gd h ts] by simp
  then show ?thesis
    by (auto simp: group_punches_map_of)
qed

lemma group_members_addr:
  "(dt, a) \<in> set (group_members gd h ts k) \<longleftrightarrow> a \<in> set ts \<and> punch_key gd (h a) = Some (k, dt)"
proof (cases k)
  case (Pair e d)
  show ?thesis unfolding Pair
    by (induction ts) (auto simp: group_members_def split: option.splits if_splits)
qed

lemma set_label_other: "b \<noteq> a \<Longrightarrow> set_label l a h b = h b"
  by (simp add: set_label_def)

lemma set_label_log_type: "log_type_of (set_label l a h) a = PStr l"
  by (simp add: set_label_def log_type_of_def dict_get_def update_conv')

lemma set_label_valid:
  "l = ''IN'' \<or> l = ''OUT'' \<Longrightarrow> has_valid_label (set_label l a h a)"
  by (auto simp: set_label_def has_valid_label_def update_conv')

lemma middle_loop_other: "b \<notin> set as \<Longrightarrow> middle_loop p as h b = h b"
  by (induction p as h rule: middle_loop.induct) (auto simp: set_label_other Let_def)

lemma middle_loop_cong:
  "(\<forall>a \<in> set as. h a = h' a) \<Longrightarrow> b \<in> set as \<Longrightarrow> middle_loop p as h b = middle_loop p as h' b"
proof (induction p as h arbitrary: h' rule: middle_loop.induct)
  case (1 prev_type h)
  then show ?case by simp
next
  case (2 prev_type a as h)
  show ?case
  proof (cases "has_valid_label (h a)")
    case True
    then have v': "has_valid_label (h' a)" using 2(3) by simp
    have l: "log_type_of h a = log_type_of h' a" using 2(3) by (simp add: log_type_of_def)
    show ?thesis
    proof (cases "b \<in> set as")
      case True
      then show ?thesis using 2(1)[OF \<open>has_valid_label (h a)\<close>, of h'] 2(3) v' l \<open>has_valid_label (h a)\<close> by simp
    next
      case False
      then show ?thesis using 2(3,4) v' \<open>has_valid_label (h a)\<close> by (simp add: middle_loop_other)
    qed
  next
    case False
    then have v': "\<not> has_valid_label (h' a)" using 2(3) by simp
    define l where "l = (if prev_type = PStr ''IN'' then ''OUT'' else ''IN'')"
    have agree: "\<forall>x \<in> set as. set_label l a h x = set_label l a h' x"
      using 2(3) by (simp add: set_label_def)
    show ?thesis
    proof (cases "b \<in> set as")
      case True
      then show ?thesis using 2(2)[OF False l_def agree] v' False
        by (simp add: Let_def l_def)
    next
      case nin: False
      then have "b = a" using 2(4) by simp
      then show ?thesis using nin v' False 2(3)
        by (simp add: Let_def middle_loop_other set_label_def)
    qed
  qed
qed

lemma label_sorted_other: "b \<notin> set s \<Longrightarrow> label_sorted s h b = h b"
proof (cases s)
  case Nil
  then show ?thesis by (simp add: label_sorted_def)
next
  case (Cons first rest)
  assume b: "b \<notin> set s"
  show ?thesis
  proof (cases rest)
    case Nil
    then show ?thesis using Cons b by (simp add: label_sorted_def set_label_other)
  next
    case rest: (Cons r rs)
    define h1 where "h1 = (if \<not> has_valid_label (h first) then set_label ''IN'' first h else h)"
    define h2 where "h2 = (if \<not> has_valid_label (h1 (last rest)) then set_label ''OUT'' (last rest) h1 else h1)"
    have "last rest \<in> set rest" using rest by simp
    then have bl: "b \<noteq> last rest" and bf: "b \<noteq> first" and bb: "b \<notin> set (butlast rest)"
      using b Cons by (auto dest: in_set_butlastD)
    have ls: "label_sorted s h = (if length s = 2 then h2 else middle_loop (PStr ''IN'') (butlast rest) h2)"
      using Cons rest by (simp add: label_sorted_def Let_def h1_def h2_def)
    have "h1 b = h b" using bf by (simp add: h1_def set_label_other)
    then have "h2 b = h b" using bl by (simp add: h2_def set_label_other)
    then show ?thesis using ls bb by (simp add: middle_loop_other)
  qed
qed

lemma label_sorted_cong:
  assumes "\<forall>a \<in> set s. h a = h' a" and "b \<in> set s"
  shows "label_sorted s h b = label_sorted s h' b"
proof (cases s)
  case Nil
  then show ?thesis using assms by simp
next
  case (Cons first rest)
  show ?thesis
  proof (cases rest)
    case Nil
    then show ?thesis using Cons assms by (simp add: label_sorted_def set_label_def)
  next
    case rest: (Cons r rs)
    define h1 where "h1 = (if \<not> has_valid_label (h first) then set_label ''IN'' first h else h)"
    define h1' where "h1' = (if \<not> has_valid_label (h' first) then set_label ''IN'' first h' else h')"
    define h2 where "h2 = (if \<not> has_valid_label (h1 (last rest)) then set_label ''OUT'' (last rest) h1 else h1)"
    define h2' where "h2' = (if \<not> has_valid_label (h1' (last rest)) then set_label ''OUT'' (last rest) h1' else h1')"
    have lin: "last rest \<in> set s" using rest Cons by simp
    have a1: "\<forall>a \<in> set s. h1 a = h1' a"
      using assms(1) Cons by (simp add: h1_def h1'_def set_label_def)
    have a2: "\<forall>a \<in> set s. h2 a = h2' a"
      using a1 lin by (simp add: h2_def h2'_def set_label_def)
    have ls: "label_sorted s h = (if length s = 2 then h2 else middle_loop (PStr ''IN'') (butlast rest) h2)"
      using Cons rest by (simp add: label_sorted_def Let_def h1_def h2_def)
    have ls': "label_sorted s h' = (if length s = 2 then h2' else middle_loop (PStr ''IN'') (butlast rest) h2')"
      using Cons rest by (simp add: label_sorted_def Let_def h1'_def h2'_def)
    have sub: "set (butlast rest) \<subseteq> set s" using Cons by (auto dest: in_set_butlastD)
    show ?thesis
    proof (cases "b \<in> set (butlast rest)")
      case True
      have "\<forall>a \<in> set (butlast rest). h2 a = h2' a" using a2 sub by blast
      then have "middle_loop (PStr ''IN'') (butlast rest) h2 b = middle_loop (PStr ''IN'') (butlast rest) h2' b"
        using True by (rule middle_loop_cong)
      then show ?thesis using ls ls' a2 assms(2) by simp
    next
      case False
      then show ?thesis using ls ls' a2 assms(2) by (simp add: middle_loop_other)
    qed
  qed
qed

lemma process_group_other: "b \<notin> snd ` set ps \<Longrightarrow> process_group ps h b = h b"
  by (simp add: process_group_def label_sorted_other)

lemma process_group_cong:
  "\<forall>a \<in> snd ` set ps. h a = h' a \<Longrightarrow> b \<in> snd ` set ps \<Longrightarrow>
   process_group ps h b = process_group ps h' b"
  unfolding process_group_def by (rule label_sorted_cong) auto

lemma fold_groups_other:
  "\<forall>(k, ps) \<in> set gs. b \<notin> snd ` set ps \<Longrightarrow>
   fold (\<lambda>(k, punches). process_group punches) gs h b = h b"
  by (induction gs arbitrary: h) (auto simp: process_group_other)

lemma fold_groups_at:
  assumes "(k, ps) \<in> set gs" and "distinct (map fst gs)"
    and "\<forall>(k', ps') \<in> set gs. k' \<noteq> k \<longrightarrow> snd ` set ps' \<inter> snd ` set ps = {}"
    and "b \<in> snd ` set ps"
  shows "fold (\<lambda>(k, punches). process_group punches) gs h b = process_group ps h b"
  using assms
proof (induction gs arbitrary: h)
  case Nil
  then show ?case by simp
next
  case (Cons g gs)
  obtain k' ps' where g: "g = (k', ps')" by (cases g)
  show ?case
  proof (cases "k' = k")
    case True
    then have eq: "ps' = ps" using Cons.prems(1,2) g by (auto simp: image_iff)
    have "\<forall>(k'', ps'') \<in> set gs. b \<notin> snd ` set ps''"
    proof (clarify)
      fix k'' ps'' x
      assume m: "(k'', ps'') \<in> set gs" and bx: "b = snd x" "x \<in> set ps''"
      have "k'' \<noteq> k" using m Cons.prems(2) g True by (auto simp: image_iff)
      moreover have "\<forall>(k', ps') \<in> set gs. k' \<noteq> k \<longrightarrow> snd ` set ps' \<inter> snd ` set ps = {}"
        using Cons.prems(3) by simp
      ultimately have "snd ` set ps'' \<inter> snd ` set ps = {}" using m by blast
      then show False using Cons.prems(4) bx by auto
    qed
    then show ?thesis using g eq by (simp add: fold_groups_other)
  next
    case False
    then have in_gs: "(k, ps) \<in> set gs" using Cons.prems(1) g by auto
    have disj: "snd ` set ps' \<inter> snd ` set ps = {}" using Cons.prems(3) g False by auto
    have "fold (\<lambda>(k, punches). process_group punches) gs (process_group ps' h) b
          = process_group ps (process_group ps' h) b"
      using Cons.IH[OF in_gs] Cons.prems(2,3,4) by simp
    also have "\<dots> = process_group ps h b"
    proof (rule process_group_cong)
      show "\<forall>a\<in>snd ` set ps. process_group ps' h a = h a"
      proof
        fix a assume "a \<in> snd ` set ps"
        then have "a \<notin> snd ` set ps'" using disj by blast
        then show "process_group ps' h a = h a" by (rule process_group_other)
      qed
      show "b \<in> snd ` set ps" by (rule Cons.prems(4))
    qed
    finally show ?thesis using g by simp
  qed
qed

lemma set_label_invalid_other:
  "b \<noteq> a \<Longrightarrow> has_valid_label (set_label l a h b) = has_valid_label (h b)"
  by (simp add: set_label_other)

lemma middle_loop_labels:
  "distinct as \<Longrightarrow> \<forall>a \<in> set as. \<not> has_valid_label (h a) \<Longrightarrow>
   map (log_type_of (middle_loop p as h)) as = alt_labels p (length as)"
proof (induction as arbitrary: p h)
  case Nil
  then show ?case by simp
next
  case (Cons a as)
  define l where "l = (if p = PStr ''IN'' then ''OUT'' else ''IN'')"
  define h' where "h' = set_label l a h"
  have nv: "\<forall>x \<in> set as. \<not> has_valid_label (h' x)"
  proof
    fix x assume x: "x \<in> set as"
    then have "x \<noteq> a" using Cons.prems(1) by auto
    then have "h' x = h x" by (simp add: h'_def set_label_other)
    then show "\<not> has_valid_label (h' x)" using Cons.prems(2) x by simp
  qed
  have step: "middle_loop p (a # as) h = middle_loop (PStr l) as h'"
    using Cons.prems(2) by (simp add: Let_def l_def h'_def)
  have "log_type_of (middle_loop (PStr l) as h') a = log_type_of h' a"
    using Cons.prems(1) by (simp add: log_type_of_def middle_loop_other)
  also have "\<dots> = PStr l" by (simp add: h'_def set_label_log_type)
  finally have hd: "log_type_of (middle_loop (PStr l) as h') a = PStr l" .
  have tl: "map (log_type_of (middle_loop (PStr l) as h')) as = alt_labels (PStr l) (length as)"
    using Cons.IH[of h' "PStr l"] Cons.prems(1) nv by simp
  show ?case using step hd tl by (simp add: Let_def l_def)
qed

lemma alt_labels_nth:
  "i < n \<Longrightarrow> alt_labels p n ! i =
     (if even i then (if p = PStr ''IN'' then PStr ''OUT'' else PStr ''IN'')
      else (if p = PStr ''IN'' then PStr ''IN'' else PStr ''OUT''))"
proof (induction n arbitrary: p i)
  case 0
  then show ?case by simp
next
  case (Suc n)
  show ?case
  proof (cases i)
    case 0
    then show ?thesis by (simp add: Let_def)
  next
    case (Suc j)
    then have "j < n" using Suc.prems by simp
    then show ?thesis using Suc.IH[of j] \<open>i = Suc j\<close> by (simp add: Let_def)
  qed
qed

lemma length_alt_labels: "length (alt_labels p n) = n"
  by (induction n arbitrary: p) (simp_all add: Let_def)

lemma alternation_Suc: "alternation (Suc n) = PStr ''IN'' # alt_labels (PStr ''IN'') n"
  by (rule nth_equalityI)
     (auto simp: alternation_def length_alt_labels alt_labels_nth nth_Cons less_Suc_eq_0_disj
           simp del: upt_Suc)

lemma set_chronological:
  "set (chronological gd h ts k) = {a \<in> set ts. \<exists>dt. punch_key gd (h a) = Some (k, dt)}"
proof -
  have "\<And>a. a \<in> snd ` set (group_members gd h ts k) \<longleftrightarrow>
          (\<exists>dt. (dt, a) \<in> set (group_members gd h ts k))"
    by force
  then show ?thesis by (auto simp: chronological_def group_members_addr)
qed

lemma last_notin_butlast:
  assumes d: "distinct xs" and ne: "xs \<noteq> []"
  shows "last xs \<notin> set (butlast xs)"
proof -
  have "xs = butlast xs @ [last xs]" using ne by simp
  then have "distinct (butlast xs @ [last xs])" using d by simp
  then show ?thesis by simp
qed

lemma distinct_group_members:
  "distinct ts \<Longrightarrow> distinct (map snd (group_members gd h ts k))"
proof (induction ts)
  case Nil
  then show ?case by (simp add: group_members_def)
next
  case (Cons a ts)
  have "group_members gd h (a # ts) k =
          (case punch_key gd (h a) of None \<Rightarrow> []
           | Some (k', dt) \<Rightarrow> if k' = k then [(dt, a)] else []) @ group_members gd h ts k"
    by (simp add: group_members_def)
  moreover have "a \<notin> snd ` set (group_members gd h ts k)"
    using Cons.prems by (auto simp: group_members_addr)
  ultimately show ?case using Cons by (auto split: option.splits)
qed

lemma distinct_chronological:
  assumes "distinct ts"
  shows "distinct (chronological gd h ts k)"
proof -
  from assms have d: "distinct (map snd (group_members gd h ts k))" by (rule distinct_group_members)
  then have "inj_on snd (set (group_members gd h ts k))" and "distinct (group_members gd h ts k)"
    by (simp_all add: distinct_map)
  then show ?thesis by (simp add: chronological_def distinct_map)
qed

lemma adjust_at_group:
  assumes "a \<in> set ts" and "punch_key gd (h a) = Some (k, dt)"
  shows "snd (adjust_checkin_sequence gd ts h) a = label_sorted (chronological gd h ts k) h a"
proof -
  let ?ps = "group_members gd h ts k"
  have mem: "(dt, a) \<in> set ?ps" using assms by (simp add: group_members_addr)
  then have ne: "?ps \<noteq> []" by auto
  have in_g: "(k, ?ps) \<in> set (group_punches gd h ts)" using ne by (simp add: group_punches_in)
  have disj1: "snd ` set ps' \<inter> snd ` set ?ps = {}"
    if g: "(k', ps') \<in> set (group_punches gd h ts)" and nk: "k' \<noteq> k" for k' ps'
  proof -
    have ps': "ps' = group_members gd h ts k'" using g by (simp add: group_punches_in)
    have False if x: "x \<in> set ps'" and y: "y \<in> set ?ps" and e: "snd x = snd y" for x y
    proof -
      have "punch_key gd (h (snd x)) = Some (k', fst x)"
        using x ps' group_members_addr[of "fst x" "snd x" gd h ts k'] by simp
      moreover have "punch_key gd (h (snd y)) = Some (k, fst y)"
        using y group_members_addr[of "fst y" "snd y" gd h ts k] by simp
      ultimately show False using e nk by simp
    qed
    then show ?thesis by blast
  qed
  have disj: "\<forall>(k', ps') \<in> set (group_punches gd h ts). k' \<noteq> k \<longrightarrow> snd ` set ps' \<inter> snd ` set ?ps = {}"
    using disj1 by blast
  have b: "a \<in> snd ` set ?ps" using mem by force
  have "ts \<noteq> []" using assms(1) by auto
  then have "snd (adjust_checkin_sequence gd ts h) a =
        fold (\<lambda>(k, punches). process_group punches) (group_punches gd h ts) h a"
    by (simp add: adjust_checkin_sequence_def)
  also have "\<dots> = process_group ?ps h a"
    using in_g group_punches_distinct disj b by (rule fold_groups_at)
  finally show ?thesis by (simp add: process_group_def chronological_def)
qed

lemma adjust_ungrouped:
  assumes "a \<notin> set ts \<or> punch_key gd (h a) = None"
  shows "snd (adjust_checkin_sequence gd ts h) a = h a"
proof (cases "ts = []")
  case True
  then show ?thesis by (simp add: adjust_checkin_sequence_def)
next
  case False
  have "a \<notin> snd ` set ps" if g: "(k, ps) \<in> set (group_punches gd h ts)" for k ps
  proof
    assume "a \<in> snd ` set ps"
    then obtain x where x: "x \<in> set ps" and ax: "a = snd x" by blast
    have "ps = group_members gd h ts k" using g by (simp add: group_punches_in)
    then have "snd x \<in> set ts \<and> punch_key gd (h (snd x)) = Some (k, fst x)"
      using x group_members_addr[of "fst x" "snd x" gd h ts k] by simp
    then show False using assms ax by auto
  qed
  then have "\<forall>(k, ps) \<in> set (group_punches gd h ts). a \<notin> snd ` set ps" by blast
  then show ?thesis using False by (simp add: adjust_checkin_sequence_def fold_groups_other)
qed


lemma label_sorted_ends:
  assumes "s = first # rest" and "rest \<noteq> []" and "distinct s"
  shows "log_type_of (label_sorted s h) first =
           (if has_valid_label (h first) then log_type_of h first else PStr ''IN'')"
    and "log_type_of (label_sorted s h) (last rest) =
           (if has_valid_label (h (last rest)) then log_type_of h (last rest) else PStr ''OUT'')"
proof -
  define h1 where "h1 = (if \<not> has_valid_label (h first) then set_label ''IN'' first h else h)"
  define h2 where "h2 = (if \<not> has_valid_label (h1 (last rest)) then set_label ''OUT'' (last rest) h1 else h1)"
  have lin: "last rest \<in> set rest" using assms(2) by simp
  then have ne: "last rest \<noteq> first" using assms(1,3) by auto
  have nb: "first \<notin> set (butlast rest)" "last rest \<notin> set (butlast rest)"
    using assms by (auto dest: in_set_butlastD simp: last_notin_butlast)
  have ls: "label_sorted s h = (if length s = 2 then h2 else middle_loop (PStr ''IN'') (butlast rest) h2)"
    using assms(1,2) by (cases rest) (simp_all add: label_sorted_def Let_def h1_def h2_def)
  have r1: "label_sorted s h first = h2 first" and r2: "label_sorted s h (last rest) = h2 (last rest)"
    using ls nb by (simp_all add: middle_loop_other)
  have h1l: "h1 (last rest) = h (last rest)" using ne by (simp add: h1_def set_label_other)
  have "h2 first = h1 first" using ne by (simp add: h2_def set_label_other)
  then show "log_type_of (label_sorted s h) first =
           (if has_valid_label (h first) then log_type_of h first else PStr ''IN'')"
    using r1 by (simp add: log_type_of_def h1_def set_label_log_type[unfolded log_type_of_def])
  show "log_type_of (label_sorted s h) (last rest) =
           (if has_valid_label (h (last rest)) then log_type_of h (last rest) else PStr ''OUT'')"
    using r2 h1l by (simp add: log_type_of_def h2_def set_label_log_type[unfolded log_type_of_def])
qed

lemma set_label_keeps:
  "key \<noteq> ''log_type'' \<Longrightarrow> key \<noteq> ''_sequence_adjusted'' \<Longrightarrow>
   map_of (set_label l a h b) key = map_of (h b) key"
  by (simp add: set_label_def update_conv')

lemma middle_loop_keeps:
  "key \<noteq> ''log_type'' \<Longrightarrow> key \<noteq> ''_sequence_adjusted'' \<Longrightarrow>
   map_of (middle_loop p as h b) key = map_of (h b) key"
  by (induction p as h rule: middle_loop.induct) (simp_all add: Let_def set_label_keeps)

lemma label_sorted_keeps:
  assumes "key \<noteq> ''log_type''" and "key \<noteq> ''_sequence_adjusted''"
  shows "map_of (label_sorted s h b) key = map_of (h b) key"
proof (cases s)
  case Nil
  then show ?thesis by (simp add: label_sorted_def)
next
  case (Cons first rest)
  show ?thesis
  proof (cases rest)
    case Nil
    then show ?thesis using Cons assms by (simp add: label_sorted_def set_label_keeps)
  next
    case rest: (Cons r rs)
    define h1 where "h1 = (if \<not> has_valid_label (h first) then set_label ''IN'' first h else h)"
    define h2 where "h2 = (if \<not> has_valid_label (h1 (last rest)) then set_label ''OUT'' (last rest) h1 else h1)"
    have ls: "label_sorted s h = (if length s = 2 then h2 else middle_loop (PStr ''IN'') (butlast rest) h2)"
      using Cons rest by (simp add: label_sorted_def Let_def h1_def h2_def)
    have "map_of (h1 b) key = map_of (h b) key" using assms by (simp add: h1_def set_label_keeps)
    then have "map_of (h2 b) key = map_of (h b) key" using assms by (simp add: h2_def set_label_keeps)
    then show ?thesis using ls assms by (simp add: middle_loop_keeps)
  qed
qed

lemma adjust_keeps:
  assumes "key \<noteq> ''log_type''" and "key \<noteq> ''_sequence_adjusted''"
  shows "map_of (snd (adjust_checkin_sequence gd ts h) a) key = map_of (h a) key"
proof (cases "punch_key gd (h a)")
  case None
  then have "snd (adjust_checkin_sequence gd ts h) a = h a" by (simp add: adjust_ungrouped)
  then show ?thesis by simp
next
  case (Some p)
  obtain k dt where p: "p = (k, dt)" by (cases p)
  show ?thesis
  proof (cases "a \<in> set ts")
    case True
    then have "snd (adjust_checkin_sequence gd ts h) a = label_sorted (chronological gd h ts k) h a"
      using Some p by (simp add: adjust_at_group)
    then show ?thesis using assms by (simp add: label_sorted_keeps)
  next
    case False
    then have "snd (adjust_checkin_sequence gd ts h) a = h a" by (simp add: adjust_ungrouped)
    then show ?thesis by simp
  qed
qed

lemma adjust_labels_of_group:
  "map (log_type_of (snd (adjust_checkin_sequence gd ts h))) (chronological gd h ts k) =
   map (log_type_of (label_sorted (chronological gd h ts k) h)) (chronological gd h ts k)"
proof (rule map_cong[OF refl])
  fix a assume "a \<in> set (chronological gd h ts k)"
  then obtain dt where "a \<in> set ts" "punch_key gd (h a) = Some (k, dt)"
    by (auto simp: set_chronological)
  then show "log_type_of (snd (adjust_checkin_sequence gd ts h)) a =
             log_type_of (label_sorted (chronological gd h ts k) h) a"
    by (simp add: log_type_of_def adjust_at_group)
qed

lemma label_sorted_many:
  assumes d: "distinct s" and len: "3 \<le> length s" and nv: "\<forall>a \<in> set s. \<not> has_valid_label (h a)"
  shows "map (log_type_of (label_sorted s h)) s = alternation (length s - 1) @ [PStr ''OUT'']"
proof -
  obtain first rest where s: "s = first # rest" using len by (cases s) auto
  have rne: "rest \<noteq> []" using len s by auto
  define mid where "mid = butlast rest"
  define lst where "lst = last rest"
  have rest: "rest = mid @ [lst]" using rne by (simp add: mid_def lst_def)
  have dm: "distinct mid" and fm: "first \<notin> set mid" and lm: "lst \<notin> set mid" and fl: "first \<noteq> lst"
    using d s rest by auto
  define h1 where "h1 = (if \<not> has_valid_label (h first) then set_label ''IN'' first h else h)"
  define h2 where "h2 = (if \<not> has_valid_label (h1 (last rest)) then set_label ''OUT'' (last rest) h1 else h1)"
  have ls: "label_sorted s h = middle_loop (PStr ''IN'') mid h2"
    using s rne len by (cases rest) (simp_all add: label_sorted_def Let_def h1_def h2_def mid_def)
  have h2mid: "h2 x = h x" if "x \<in> set mid" for x
  proof -
    have "x \<noteq> first" "x \<noteq> last rest" using that fm lm by (auto simp: lst_def)
    then show ?thesis by (simp add: h2_def h1_def set_label_other)
  qed
  have "\<forall>x \<in> set mid. \<not> has_valid_label (h2 x)"
    using h2mid nv s rest by simp
  then have m: "map (log_type_of (label_sorted s h)) mid = alt_labels (PStr ''IN'') (length mid)"
    using dm ls by (simp add: middle_loop_labels)
  have f: "log_type_of (label_sorted s h) first = PStr ''IN''"
    using label_sorted_ends(1)[OF s rne d, of h] nv s by simp
  have lin: "lst \<in> set s" using s rest by simp
  have l: "log_type_of (label_sorted s h) lst = PStr ''OUT''"
    using label_sorted_ends(2)[OF s rne d, of h, folded lst_def] nv lin by simp
  have "map (log_type_of (label_sorted s h)) s =
          (PStr ''IN'' # alt_labels (PStr ''IN'') (length mid)) @ [PStr ''OUT'']"
    using s rest f l m by simp
  also have "\<dots> = alternation (Suc (length mid)) @ [PStr ''OUT'']"
    by (simp only: alternation_Suc)
  finally show ?thesis using s rest by simp
qed

lemma alternation_snoc:
  "alternation (Suc n) = alternation n @ [if even n then PStr ''IN'' else PStr ''OUT'']"
  by (simp add: alternation_def)

lemma alternation_out_iff:
  "0 < n \<Longrightarrow> alternation (n - Suc 0) @ [PStr ''OUT''] = alternation n \<longleftrightarrow> even n"
  by (cases n) (auto simp: alternation_snoc)

lemma group_members_filter:
  "group_members gd h (filter (\<lambda>b. \<not> other_day gd h e d b) ts) (e, d) = group_members gd h ts (e, d)"
  by (induction ts) (auto simp: group_members_def other_day_def split: option.splits)

section \<open>The repair pass: a second run finds nothing to change\<close>

lemma length_labels_from: "length (labels_from idx n prev m) = m"
  by (induction m arbitrary: idx prev) (simp_all add: Let_def)

lemma correct_loop_eq:
  "correct_loop idx n prev cs = mismatches (zip cs (labels_from idx n prev (length cs)))"
  by (induction cs arbitrary: idx prev) (simp_all add: mismatches_def Let_def)

lemma sequence_loop_eq:
  "sequence_loop idx n prev cs =
     (mismatches (zip cs (labels_from idx n prev (length cs))),
      length (filter (\<lambda>(c, l). ck_log_type c = PStr l) (zip cs (labels_from idx n prev (length cs)))))"
  by (induction cs arbitrary: idx prev) (simp_all add: mismatches_def Let_def)

lemma daily_updates_eq: "daily_updates daily = mismatches (expected daily)"
  by (simp add: daily_updates_def expected_def Let_def correct_loop_eq)

lemma labels_from_one: "labels_from 0 (Suc 0) prev (Suc 0) = [''IN'']"
  by (simp add: Let_def)

lemma daily_fix_eq:
  "daily_fix daily = (mismatches (expected daily),
                      length (filter (\<lambda>(c, l). ck_log_type c = PStr l) (expected daily)))"
proof (cases "length (sort_key ck_time daily) = 1")
  case True
  then obtain c where c: "sort_key ck_time daily = [c]"
    by (cases "sort_key ck_time daily") auto
  have "length daily = 1" using True by simp
  then show ?thesis using c
    by (simp add: daily_fix_def expected_def Let_def mismatches_def)
next
  case False
  then show ?thesis
    by (simp add: daily_fix_def expected_def Let_def sequence_loop_eq)
qed

lemma analyse_groups_eq:
  "analyse_groups grouped =
     (concat (map (\<lambda>(k, daily). mismatches (expected daily)) grouped),
      sum_list (map (\<lambda>(k, daily). length (filter (\<lambda>(c, l). ck_log_type c = PStr l) (expected daily))) grouped))"
proof (induction grouped rule: rev_induct)
  case Nil
  then show ?case by (simp add: analyse_groups_def)
next
  case (snoc g grouped)
  obtain k daily where g: "g = (k, daily)" by (cases g)
  have "analyse_groups (grouped @ [g]) =
          (fst (analyse_groups grouped) @ fst (daily_fix daily),
           snd (analyse_groups grouped) + snd (daily_fix daily))"
    by (simp add: analyse_groups_def g)
  then show ?case using snoc g by (simp add: daily_fix_eq)
qed

lemma label_only_upd: "label_only (upd ups)"
  by (simp add: label_only_def upd_def split: option.splits)

lemma set_value_fold:
  "distinct (map fst ups) \<Longrightarrow> fold (\<lambda>(nm, l). set_value nm l) ups store = map (upd ups) store"
proof (induction ups arbitrary: store)
  case Nil
  then show ?case by (simp add: upd_def)
next
  case (Cons u ups)
  obtain n l where u: "u = (n, l)" by (cases u)
  have none: "map_of ups n = None" using Cons.prems u by (simp add: map_of_eq_None_iff)
  have "upd ups (if ck_name r = n then r\<lparr>ck_log_type := PStr l\<rparr> else r) = upd ((n, l) # ups) r" for r
    using none by (simp add: upd_def)
  then have "map (upd ups) (set_value n l store) = map (upd ((n, l) # ups)) store"
    by (simp add: set_value_def)
  then show ?case using Cons u by simp
qed

lemma insort_key_map_commute:
  "(\<And>x. k (f x) = k x) \<Longrightarrow> insort_key k (f x) (map f ys) = map f (insort_key k x ys)"
  by (induction ys) simp_all

lemma sort_key_map_commute:
  "(\<And>x. k (f x) = k x) \<Longrightarrow> sort_key k (map f xs) = map f (sort_key k xs)"
  by (induction xs) (simp_all add: insort_key_map_commute)

lemma order_by_map:
  "label_only f \<Longrightarrow> order_by_employee_time (map f rows) = map f (order_by_employee_time rows)"
  by (simp add: order_by_employee_time_def label_only_def sort_key_map_commute)

lemma group_append_map:
  "group_append k (f v) (map (\<lambda>(k, d). (k, map f d)) g) = map (\<lambda>(k, d). (k, map f d)) (group_append k v g)"
  by (induction g) auto

lemma group_checkins_snoc:
  "group_checkins (rows @ [c]) = group_append (ck_employee c, date_key (ck_time c)) c (group_checkins rows)"
  by (simp add: group_checkins_def)

lemma group_checkins_map:
  "label_only f \<Longrightarrow> group_checkins (map f rows) = map (\<lambda>(k, d). (k, map f d)) (group_checkins rows)"
proof (induction rows rule: rev_induct)
  case Nil
  then show ?case by (simp add: group_checkins_def)
next
  case (snoc c rows)
  have "group_checkins (map f (rows @ [c])) =
        group_append (ck_employee c, date_key (ck_time c)) (f c) (group_checkins (map f rows))"
    using snoc.prems group_checkins_snoc[of "map f rows" "f c"] by (simp add: label_only_def)
  then show ?case using snoc by (simp add: group_append_map group_checkins_snoc)
qed

lemma expected_map:
  "label_only f \<Longrightarrow> expected (map f daily) = map (\<lambda>(r, l). (f r, l)) (expected daily)"
  by (simp add: expected_def Let_def label_only_def sort_key_map_commute zip_map1)

lemma targets_map:
  assumes "label_only f"
  shows "targets (map f rows) = map (\<lambda>(r, l). (f r, l)) (targets rows)"
proof -
  have "concat (map (\<lambda>(k, daily). expected daily) (map (\<lambda>(k, d). (k, map f d)) g))
        = map (\<lambda>(r, l). (f r, l)) (concat (map (\<lambda>(k, daily). expected daily) g))" for g
    by (induction g) (auto simp: expected_map[OF assms])
  then show ?thesis by (simp add: targets_def group_checkins_map[OF assms])
qed

lemma mset_group_append:
  "mset (concat (map snd (group_append k v g))) = mset (concat (map snd g)) + {#v#}"
  by (induction g) auto

lemma mset_group_checkins: "mset (concat (map snd (group_checkins rows))) = mset rows"
  by (induction rows rule: rev_induct) (simp_all add: group_checkins_snoc mset_group_append, simp add: group_checkins_def)

lemma map_fst_expected: "map fst (expected daily) = sort_key ck_time daily"
  by (simp add: expected_def Let_def length_labels_from)

lemma mset_map_fst_targets: "mset (map fst (targets rows)) = mset rows"
proof -
  have e: "image_mset fst (mset (expected b)) = mset b" for b
    using map_fst_expected[of b] by (metis mset_map mset_sort)
  have "mset (map fst (concat (map (\<lambda>(k, daily). expected daily) g))) = mset (concat (map snd g))" for g
    by (induction g) (auto simp: e)
  from this[of "group_checkins rows"] show ?thesis
    by (simp only: targets_def mset_group_checkins)
qed

lemma mismatches_concat:
  "concat (map (\<lambda>(k, daily). mismatches (expected daily)) g)
     = mismatches (concat (map (\<lambda>(k, daily). expected daily) g))"
  by (induction g) (auto simp: mismatches_def)

lemma upd_correct:
  assumes d: "distinct (map (\<lambda>p. ck_name (fst p)) ps)" and m: "(r, l) \<in> set ps"
  shows "ck_log_type (upd (mismatches ps) r) = PStr l"
proof (cases "ck_log_type r = PStr l")
  case True
  have "map_of (mismatches ps) (ck_name r) = None"
  proof (rule ccontr)
    assume "map_of (mismatches ps) (ck_name r) \<noteq> None"
    then obtain l' where "map_of (mismatches ps) (ck_name r) = Some l'" by auto
    then have "(ck_name r, l') \<in> set (mismatches ps)" by (rule map_of_SomeD)
    then obtain r' where r': "(r', l') \<in> set ps" "ck_name r' = ck_name r" "ck_log_type r' \<noteq> PStr l'"
      by (auto simp: mismatches_def)
    have "inj_on (\<lambda>p. ck_name (fst p)) (set ps)" using d by (simp add: distinct_map)
    then have "(r', l') = (r, l)"
      using r'(1,2) m inj_onD[of "\<lambda>p. ck_name (fst p)" "set ps" "(r', l')" "(r, l)"] by simp
    then show False using r'(3) True by simp
  qed
  then show ?thesis using True by (simp add: upd_def)
next
  case False
  then have in_m: "(ck_name r, l) \<in> set (mismatches ps)" using m by (force simp: mismatches_def)
  have "map fst (mismatches ps) = map (\<lambda>p. ck_name (fst p)) (filter (\<lambda>(c, l). ck_log_type c \<noteq> PStr l) ps)"
    by (simp add: mismatches_def case_prod_beta comp_def)
  then have "distinct (map fst (mismatches ps))" using d by (simp add: distinct_map_filter)
  then have "map_of (mismatches ps) (ck_name r) = Some l" using in_m by simp
  then show ?thesis by (simp add: upd_def)
qed

lemma distinct_names_targets:
  assumes "distinct (map ck_name rows)"
  shows "distinct (map (\<lambda>p. ck_name (fst p)) (targets rows))"
proof -
  have "mset (map ck_name (map fst (targets rows))) = mset (map ck_name rows)"
    using mset_map_fst_targets[of rows] by (metis mset_map)
  then have "distinct (map ck_name (map fst (targets rows)))"
    using assms by (metis mset_eq_imp_distinct_iff)
  then show ?thesis by (simp add: comp_def)
qed

lemma targets_after_update:
  assumes "distinct (map ck_name rows)" and "(r, l) \<in> set (targets (map (upd (mismatches (targets rows))) rows))"
  shows "ck_log_type r = PStr l"
proof -
  let ?f = "upd (mismatches (targets rows))"
  have "targets (map ?f rows) = map (\<lambda>(r, l). (?f r, l)) (targets rows)"
    by (rule targets_map[OF label_only_upd])
  then obtain r0 where "(r0, l) \<in> set (targets rows)" "r = ?f r0" using assms(2) by auto
  then show ?thesis using upd_correct[OF distinct_names_targets[OF assms(1)]] by simp
qed

lemma mismatches_nil: "(\<And>r l. (r, l) \<in> set ps \<Longrightarrow> ck_log_type r = PStr l) \<Longrightarrow> mismatches ps = []"
  by (auto simp: mismatches_def filter_empty_conv)

lemma matches_all:
  "(\<And>r l. (r, l) \<in> set ps \<Longrightarrow> ck_log_type r = PStr l) \<Longrightarrow>
   filter (\<lambda>(c, l). ck_log_type c = PStr l) ps = ps"
  by (auto simp: filter_id_conv)

lemma distinct_names_query:
  assumes "distinct (map ck_name store)"
  shows "distinct (map ck_name (order_by_employee_time (filter P store)))"
proof -
  have "mset (map ck_name (order_by_employee_time (filter P store))) = mset (map ck_name (filter P store))"
    by (simp add: order_by_employee_time_def)
  moreover have "distinct (map ck_name (filter P store))" using assms by (rule distinct_map_filter)
  ultimately show ?thesis by (metis mset_eq_imp_distinct_iff)
qed

lemma query_map:
  assumes "label_only f" and "\<And>r. P (f r) = P r"
  shows "order_by_employee_time (filter P (map f store)) = map f (order_by_employee_time (filter P store))"
proof -
  have "filter P (map f store) = map f (filter P store)"
    using assms(2) by (induction store) simp_all
  then show ?thesis by (simp add: order_by_map[OF assms(1)])
qed

lemma repair_generic:
  assumes d: "distinct (map ck_name store)" and p: "\<And>f r. label_only f \<Longrightarrow> P (f r) = P r"
    and rows: "rows = order_by_employee_time (filter P store)"
    and ups: "ups = mismatches (targets rows)"
    and store': "store' = fold (\<lambda>(nm, l). set_value nm l) ups store"
    and rows': "rows' = order_by_employee_time (filter P store')"
  shows "mismatches (targets rows') = []"
    and "filter (\<lambda>(c, l). ck_log_type c = PStr l) (targets rows') = targets rows'"
proof -
  have dr: "distinct (map ck_name rows)" unfolding rows using d by (rule distinct_names_query)
  have "map fst ups = map (\<lambda>p. ck_name (fst p)) (filter (\<lambda>(c, l). ck_log_type c \<noteq> PStr l) (targets rows))"
    unfolding ups by (simp add: mismatches_def case_prod_beta comp_def)
  then have "distinct (map fst ups)"
    using distinct_names_targets[OF dr] by (simp add: distinct_map_filter)
  then have "store' = map (upd ups) store" unfolding store' by (rule set_value_fold)
  then have r': "rows' = map (upd ups) rows"
    unfolding rows' rows using query_map[OF label_only_upd, of P ups store] p[OF label_only_upd] by simp
  have ok: "ck_log_type r = PStr l" if "(r, l) \<in> set (targets rows')" for r l
    using that targets_after_update[OF dr, of r l] unfolding r' ups by simp
  show "mismatches (targets rows') = []" using ok by (rule mismatches_nil)
  show "filter (\<lambda>(c, l). ck_log_type c = PStr l) (targets rows') = targets rows'"
    using ok by (rule matches_all)
qed

lemma computed_updates_eq: "computed_updates rows = mismatches (targets rows)"
  by (simp add: computed_updates_def targets_def daily_updates_eq mismatches_concat)

lemma analyse_eq:
  "analyse_groups (group_checkins rows) =
     (mismatches (targets rows), length (filter (\<lambda>(c, l). ck_log_type c = PStr l) (targets rows)))"
proof -
  have "sum_list (map (\<lambda>(k, daily). length (filter (\<lambda>(c, l). ck_log_type c = PStr l) (expected daily))) g)
        = length (filter (\<lambda>(c, l). ck_log_type c = PStr l) (concat (map (\<lambda>(k, daily). expected daily) g)))" for g
    by (induction g) auto
  then show ?thesis by (simp add: analyse_groups_eq mismatches_concat targets_def)
qed

lemma length_targets: "length (targets rows) = length rows"
  using mset_map_fst_targets[of rows] by (metis length_map size_mset)

lemma existing_second_run:
  assumes "distinct (map ck_name store)"
  shows "computed_updates (zkteco_checkins (snd (fix_existing_checkins store))) = []"
proof (cases "zkteco_checkins store = []")
  case True
  then have "snd (fix_existing_checkins store) = store" by (simp add: fix_existing_checkins_def)
  then show ?thesis using True by (simp add: computed_updates_def group_checkins_def)
next
  case False
  then have s': "snd (fix_existing_checkins store) =
      fold (\<lambda>(nm, l). set_value nm l) (mismatches (targets (zkteco_checkins store))) store"
    by (simp add: fix_existing_checkins_def Let_def computed_updates_eq)
  have p: "\<And>f r. label_only f \<Longrightarrow> contains '':4370'' (ck_device_id (f r)) = contains '':4370'' (ck_device_id r)"
    by (simp add: label_only_def)
  show ?thesis
    unfolding computed_updates_eq
    by (rule repair_generic(1)[OF assms, where P = "\<lambda>r. contains '':4370'' (ck_device_id r)"])
       (simp_all add: p s' zkteco_checkins_def)
qed

lemma script_second_run:
  assumes "distinct (map ck_name store)"
  shows "analyse_groups (group_checkins (script_checkins (snd (fix_all_checkins False store))))
           = ([], length (script_checkins (snd (fix_all_checkins False store))))"
proof -
  let ?P = "\<lambda>r. contains ''111.88.28.220:4370'' (ck_device_id r) \<and> date_2025_09_01 \<le> ck_time r"
  have p: "\<And>f r. label_only f \<Longrightarrow> ?P (f r) = ?P r" by (simp add: label_only_def)
  show ?thesis
  proof (cases "script_checkins store = [] \<or> mismatches (targets (script_checkins store)) = []")
    case True
    then have s': "snd (fix_all_checkins False store) = store"
      by (auto simp: fix_all_checkins_def Let_def analyse_eq)
    show ?thesis
    proof (cases "script_checkins store = []")
      case True
      then show ?thesis using s' by (simp add: analyse_groups_def group_checkins_def)
    next
      case False
      then have m: "mismatches (targets (script_checkins store)) = []" using True by simp
      then have "filter (\<lambda>(c, l). ck_log_type c \<noteq> PStr l) (targets (script_checkins store)) = []"
        by (simp add: mismatches_def)
      then have "filter (\<lambda>(c, l). ck_log_type c = PStr l) (targets (script_checkins store))
                 = targets (script_checkins store)"
        by (auto simp: filter_empty_conv filter_id_conv)
      then show ?thesis using s' m by (simp add: analyse_eq length_targets)
    qed
  next
    case False
    then have s': "snd (fix_all_checkins False store) =
        fold (\<lambda>(nm, l). set_value nm l) (mismatches (targets (script_checkins store))) store"
      by (simp add: fix_all_checkins_def Let_def analyse_eq)
    have g: "mismatches (targets (script_checkins (snd (fix_all_checkins False store)))) = []"
      "filter (\<lambda>(c, l). ck_log_type c = PStr l) (targets (script_checkins (snd (fix_all_checkins False store))))
         = targets (script_checkins (snd (fix_all_checkins False store)))"
      by (rule repair_generic[OF assms, where P = ?P]; simp add: p s' script_checkins_def)+
    show ?thesis by (simp add: analyse_eq g length_targets)
  qed
qed

section \<open>The two copies of the Label Detector\<close>

lemma scan_values_outer_eq: "scan_values_outer rt t = scan_values rt t"
  by (induction rt t rule: scan_values.induct) (simp_all add: Let_def)

lemma check_fields_outer_eq: "check_fields_outer rt t fs = check_fields rt t fs"
  by (induction rt t fs rule: check_fields.induct) (simp_all add: Let_def split: option.splits)

lemma check_display_outer_eq: "check_display_outer rt t = check_display rt t"
  by (simp add: check_display_outer_def check_display_def)

lemma scan_keys_outer_eq: "scan_keys_outer rt t = scan_keys rt t"
  by (induction rt t rule: scan_keys.induct) (simp_all add: Let_def)

lemma field_checks_outer_eq: "field_checks_outer = field_checks"
  by (simp add: field_checks_outer_def field_checks_def)

section \<open>The Upsert Gate: rejection and acceptance\<close>

lemma extract_transaction_time:
  "extract_transaction env t = Some (emp_code, punch_time, device_id, transaction_id) \<Longrightarrow>
   find_punch_time env time_formats t time_fields = Ts_ok punch_time"
  by (auto simp: extract_transaction_def Let_def split: timestamp_result.splits if_splits)

lemma extract_transaction_outer_time:
  "extract_transaction_outer env t = Some (emp_code, punch_time, device_id, transaction_id) \<Longrightarrow>
   find_punch_time env time_formats_outer t time_fields_outer = Ts_ok punch_time"
  by (auto simp: extract_transaction_outer_def Let_def split: timestamp_result.splits if_splits)

lemma check_and_insert_rejects:
  "outside_window env pt \<Longrightarrow>
   check_and_insert env t employee pt device_id transaction_id store = (Inr False, store)"
  by (auto simp: check_and_insert_def outside_window_def Let_def)

lemma create_employee_checkin_rejects:
  assumes "find_punch_time env time_formats t time_fields = Ts_ok pt" and "outside_window env pt"
  shows "create_employee_checkin env t store = (Inr False, store)"
proof (cases "extract_transaction env t")
  case None
  then show ?thesis by (simp add: create_employee_checkin_def)
next
  case (Some x)
  obtain emp_code punch_time device_id transaction_id
    where x: "x = (emp_code, punch_time, device_id, transaction_id)" by (cases x)
  have "punch_time = pt" using extract_transaction_time[of env t] Some x assms(1) by simp
  then show ?thesis using Some x assms(2)
    by (simp add: create_employee_checkin_def check_and_insert_rejects split: option.splits)
qed

lemma create_employee_checkin_outer_rejects:
  assumes "find_punch_time env time_formats_outer t time_fields_outer = Ts_ok pt"
    and "outside_window env pt"
  shows "create_employee_checkin_outer env t store = (Inr False, store)"
proof (cases "extract_transaction_outer env t")
  case None
  then show ?thesis by (simp add: create_employee_checkin_outer_def)
next
  case (Some x)
  obtain emp_code punch_time device_id transaction_id
    where x: "x = (emp_code, punch_time, device_id, transaction_id)" by (cases x)
  have "punch_time = pt" using extract_transaction_outer_time[of env t] Some x assms(1) by simp
  then show ?thesis using Some x assms(2)
    by (simp add: create_employee_checkin_outer_def check_and_insert_rejects split: option.splits)
qed

lemma create_checkin_from_attendance_v2_rejects:
  assumes "py_or (dict_get t ''punch_time'') (dict_get t ''timestamp'') = PTime pt"
    and "outside_window env pt"
  shows "create_checkin_from_attendance_v2 env t device_id store = (False, store)"
  using assms
  by (auto simp: create_checkin_from_attendance_v2_def outside_window_def Let_def
           split: option.splits)

lemma create_checkin_from_attendance_v2_accepts:
  assumes "py_or (dict_get t ''punch_time'') (dict_get t ''timestamp'') = PTime pt"
    and "\<not> outside_window env pt" and "truthy (dict_get t ''emp_code'')"
    and "find_employee_by_code env (dict_get t ''emp_code'') = Some employee"
    and "inserts_succeed env"
  shows "fst (create_checkin_from_attendance_v2 env t device_id store) = True
         \<and> list_ex (\<lambda>r. ck_employee r = employee \<and> ck_time r = pt)
               (snd (create_checkin_from_attendance_v2 env t device_id store))"
proof -
  let ?l = "case map_of t ''log_type'' of None \<Rightarrow> PStr ''IN'' | Some v \<Rightarrow> v"
  let ?row = "\<lparr>ck_name = [], ck_employee = employee, ck_time = pt, ck_log_type = ?l,
                ck_device_id = device_id\<rparr>"
  obtain nm where i: "insert_checkin env ?row store = Inserted (store @ [?row\<lparr>ck_name := nm\<rparr>])"
    using assms(5) unfolding inserts_succeed_def by blast
  show ?thesis
  proof (cases "list_ex (\<lambda>r. ck_employee r = employee \<and> ck_time r = pt
                              \<and> ck_device_id r = device_id \<and> ck_log_type r = ?l) store")
    case True
    then have "list_ex (\<lambda>r. ck_employee r = employee \<and> ck_time r = pt) store"
      by (auto simp: list_ex_iff)
    then show ?thesis using True assms(1-4)
      by (simp add: create_checkin_from_attendance_v2_def outside_window_def Let_def)
  next
    case False
    then show ?thesis using i assms(1-4)
      by (simp add: create_checkin_from_attendance_v2_def outside_window_def Let_def)
  qed
qed

lemma extract_transaction_accepts:
  assumes "find_punch_time env time_formats t time_fields = Ts_ok pt"
    and "\<not> outside_window env pt" and "truthy (emp_code_of (runtime env) t)"
  shows "extract_transaction env t =
           Some (emp_code_of (runtime env) t, pt, device_id_of (runtime env) t, transaction_id_of t)"
  using assms
  by (simp add: extract_transaction_def outside_window_def Let_def
        timedelta_minutes_def timedelta_days_def)

lemma check_and_insert_accepts:
  assumes "\<not> outside_window env pt" and "inserts_succeed env"
  shows "fst (check_and_insert env t employee pt device_id transaction_id store) = Inr True
         \<and> persisted employee pt (snd (check_and_insert env t employee pt device_id transaction_id store))"
proof (cases "existing_checkin (runtime env) employee (truncate_seconds pt)
                (resolve_log_type (runtime env) t) device_id store")
  case True
  then have "persisted employee pt store"
    by (auto simp: existing_checkin_def persisted_def list_ex_iff)
  then show ?thesis using True assms(1)
    by (simp add: check_and_insert_def outside_window_def Let_def)
next
  case False
  let ?row = "\<lparr>ck_name = [], ck_employee = employee, ck_time = truncate_seconds pt,
                ck_log_type = resolve_log_type (runtime env) t,
                ck_device_id = unique_device_id_of (runtime env) device_id transaction_id\<rparr>"
  obtain nm where "insert_checkin env ?row store = Inserted (store @ [?row\<lparr>ck_name := nm\<rparr>])"
    using assms(2) unfolding inserts_succeed_def by blast
  then show ?thesis using False assms(1)
    by (simp add: check_and_insert_def outside_window_def Let_def persisted_def)
qed

lemma create_employee_checkin_accepts:
  assumes "find_punch_time env time_formats t time_fields = Ts_ok pt"
    and "\<not> outside_window env pt" and "truthy (emp_code_of (runtime env) t)"
    and "find_employee_by_code env (emp_code_of (runtime env) t) = Some employee"
    and "inserts_succeed env"
  shows "fst (create_employee_checkin env t store) = Inr True
         \<and> persisted employee pt (snd (create_employee_checkin env t store))"
proof -
  let ?c = "check_and_insert env t employee pt (device_id_of (runtime env) t) (transaction_id_of t) store"
  have c: "fst ?c = Inr True \<and> persisted employee pt (snd ?c)"
    using assms(2,5) by (rule check_and_insert_accepts)
  have "create_employee_checkin env t store = ?c"
    using c extract_transaction_accepts[OF assms(1,2,3)] assms(4)
    by (cases ?c) (auto simp: create_employee_checkin_def)
  then show ?thesis using c by simp
qed

lemma window_points:
  "outside_window env (now_datetime env + timedelta_minutes 6)
   \<and> \<not> outside_window env (now_datetime env + timedelta_minutes 4)
   \<and> outside_window env (now_datetime env - timedelta_days 91)
   \<and> \<not> outside_window env (now_datetime env - timedelta_days 89)"
  by (simp add: outside_window_def timedelta_minutes_def timedelta_days_def)

lemma inserts_succeed_test_env: "inserts_succeed (test_env now)"
  unfolding inserts_succeed_def
proof (intro allI)
  fix r store
  have "insert_checkin (test_env now) r store
          = Inserted (store @ [r\<lparr>ck_name := ''CHK-'' @ digits_of_nat (length store)\<rparr>])"
    by (simp add: test_env_def append_checkin_def)
  then show "\<exists>nm. insert_checkin (test_env now) r store = Inserted (store @ [r\<lparr>ck_name := nm\<rparr>])"
    by blast
qed

text \<open>A matching stored event: no write, and the call reports success.\<close>

lemma existing_match_reports_success:
  assumes "extract_transaction env t = Some (emp_code, pt, device_id, transaction_id)"
    and "find_employee_by_code env emp_code = Some employee"
    and "\<not> outside_window env pt"
    and "existing_checkin (runtime env) employee (truncate_seconds pt)
           (resolve_log_type (runtime env) t) device_id store"
  shows "create_employee_checkin env t store = (Inr True, store)"
  using assms
  by (simp add: create_employee_checkin_def check_and_insert_def outside_window_def Let_def)

section \<open>One sync pass on an empty table\<close>








































section \<open>The normalizer: labels, grouping and output order\<close>

text \<open>
  C2, amended to the normalizer of the app package. In a group of \<open>N \<ge> 3\<close> punches of one
  employee and day none of which carries a valid label, the labels read in chronological
  order are the alternation \<open>IN, OUT, IN, \<dots>\<close> on the first \<open>N - 1\<close> punches followed by
  \<open>OUT\<close> on the last one. The whole sequence is the strict alternation exactly when \<open>N\<close>
  is even.
\<close>
theorem normalizer_alternates_then_out:
  assumes "distinct ts"
    and "3 \<le> length (chronological gd h ts k)"
    and "\<forall>a \<in> set (chronological gd h ts k). \<not> has_valid_label (h a)"
  shows "map (log_type_of (snd (adjust_checkin_sequence gd ts h))) (chronological gd h ts k)
           = alternation (length (chronological gd h ts k) - 1) @ [PStr ''OUT'']
         \<and> (map (log_type_of (snd (adjust_checkin_sequence gd ts h))) (chronological gd h ts k)
              = alternation (length (chronological gd h ts k))
            \<longleftrightarrow> even (length (chronological gd h ts k)))"
proof -
  let ?s = "chronological gd h ts k"
  have d: "distinct ?s" using assms(1) by (rule distinct_chronological)
  have eq: "map (log_type_of (snd (adjust_checkin_sequence gd ts h))) ?s
          = alternation (length ?s - 1) @ [PStr ''OUT'']"
    using label_sorted_many[OF d assms(2,3)] by (simp add: adjust_labels_of_group)
  have "0 < length ?s" using assms(2) by auto
  then show ?thesis using eq by (simp add: alternation_out_iff)
qed

text \<open>The four punches of 09:00, 13:00, 13:30 and 18:00 come out as IN, OUT, IN, OUT.\<close>
theorem normalizer_alternates_then_out_witness:
  "distinct [0, 1, 2, 3::nat]
   \<and> 3 \<le> length (chronological gd_std four_punches [0, 1, 2, 3] (PStr ''E1'', 0))
   \<and> map (log_type_of (snd (adjust_checkin_sequence gd_std [0, 1, 2, 3] four_punches)))
          (chronological gd_std four_punches [0, 1, 2, 3] (PStr ''E1'', 0))
       = [PStr ''IN'', PStr ''OUT'', PStr ''IN'', PStr ''OUT'']"
proof -
  have c: "chronological gd_std four_punches [0, 1, 2, 3] (PStr ''E1'', 0) = [0, 1, 2, 3]"
    by code_simp
  have d: "distinct [0, 1, 2, 3::nat]" by simp
  have l: "3 \<le> length (chronological gd_std four_punches [0, 1, 2, 3] (PStr ''E1'', 0))"
    unfolding c by simp
  have n: "\<forall>a \<in> set (chronological gd_std four_punches [0, 1, 2, 3] (PStr ''E1'', 0)).
             \<not> has_valid_label (four_punches a)"
    unfolding c by (simp add: four_punches_def heap_of_def punch_def has_valid_label_def)
  have e: "alternation (length [0, 1, 2, 3::nat] - 1) @ [PStr ''OUT'']
             = [PStr ''IN'', PStr ''OUT'', PStr ''IN'', PStr ''OUT'']"
    by code_simp
  have "map (log_type_of (snd (adjust_checkin_sequence gd_std [0, 1, 2, 3] four_punches)))
          (chronological gd_std four_punches [0, 1, 2, 3] (PStr ''E1'', 0))
        = alternation (length (chronological gd_std four_punches [0, 1, 2, 3] (PStr ''E1'', 0)) - 1)
          @ [PStr ''OUT'']"
    using normalizer_alternates_then_out[OF d l n] by blast
  then have "map (log_type_of (snd (adjust_checkin_sequence gd_std [0, 1, 2, 3] four_punches)))
          (chronological gd_std four_punches [0, 1, 2, 3] (PStr ''E1'', 0))
        = [PStr ''IN'', PStr ''OUT'', PStr ''IN'', PStr ''OUT'']"
    unfolding c e .
  then show ?thesis using d l by blast
qed

text \<open>
  C2 as stated fails in the app package for odd \<open>N\<close>: three unlabelled punches come out as
  IN, OUT, OUT, since the last punch is forced to OUT after the middle one was given OUT.
\<close>
theorem three_punches_not_alternating:
  "chronological gd_std three_punches [0, 1, 2] (PStr ''E1'', 0) = [0, 1, 2]
   \<and> \<not> has_valid_label (three_punches 0) \<and> \<not> has_valid_label (three_punches 1)
   \<and> \<not> has_valid_label (three_punches 2)
   \<and> map (log_type_of (snd (adjust_checkin_sequence gd_std [0, 1, 2] three_punches))) [0, 1, 2]
       = [PStr ''IN'', PStr ''OUT'', PStr ''OUT'']
   \<and> alternation 3 = [PStr ''IN'', PStr ''OUT'', PStr ''IN'']"
  by code_simp

text \<open>
  The outer copy does not force the last punch to OUT: it labels by position among the
  punches of the employee, so the same three punches come out as IN, OUT, IN.
\<close>
lemma outer_copy_three_punches_end_in:
  "map (outer_label [0, 1, 2] three_punches) [0, 1, 2]
     = [Some (PStr ''IN''), Some (PStr ''OUT''), Some (PStr ''IN'')]"
  by code_simp

text \<open>
  C3, amended to the normalizer of the app package. In a group of exactly two punches of one
  employee and day the earlier one gets IN and the later one OUT, except that a punch which
  already carries the label IN or OUT keeps it.
\<close>
theorem two_punches_keep_valid_labels:
  assumes "distinct ts" and "chronological gd h ts k = [a, b]"
  shows "map (log_type_of (snd (adjust_checkin_sequence gd ts h))) [a, b] =
           [if has_valid_label (h a) then log_type_of h a else PStr ''IN'',
            if has_valid_label (h b) then log_type_of h b else PStr ''OUT'']"
proof -
  have d: "distinct [a, b]" using distinct_chronological[OF assms(1), of gd h k] assms(2) by simp
  have "map (log_type_of (snd (adjust_checkin_sequence gd ts h))) [a, b] =
        map (log_type_of (label_sorted [a, b] h)) [a, b]"
    using adjust_labels_of_group[of gd ts h k] assms(2) by simp
  moreover have "log_type_of (label_sorted [a, b] h) a =
                   (if has_valid_label (h a) then log_type_of h a else PStr ''IN'')"
    using label_sorted_ends(1)[of "[a, b]" a "[b]" h] d by simp
  moreover have "log_type_of (label_sorted [a, b] h) b =
                   (if has_valid_label (h b) then log_type_of h b else PStr ''OUT'')"
    using label_sorted_ends(2)[of "[a, b]" a "[b]" h] d by simp
  ultimately show ?thesis by simp
qed

text \<open>Two unlabelled punches given latest first: 09:00 gets IN and 18:00 gets OUT.\<close>
theorem two_punches_keep_valid_labels_witness:
  "distinct [0, 1::nat]
   \<and> chronological gd_std late_first [0, 1] (PStr ''E1'', 0) = [1, 0]
   \<and> map (log_type_of (snd (adjust_checkin_sequence gd_std [0, 1] late_first))) [1, 0]
       = [PStr ''IN'', PStr ''OUT'']"
proof -
  have c: "chronological gd_std late_first [0, 1] (PStr ''E1'', 0) = [1, 0]" by code_simp
  have d: "distinct [0, 1::nat]" by simp
  have v: "\<not> has_valid_label (late_first 0)" "\<not> has_valid_label (late_first 1)"
    by (simp_all add: late_first_def heap_of_def punch_def has_valid_label_def)
  show ?thesis
    using two_punches_keep_valid_labels[of "[0, 1]" gd_std late_first "(PStr ''E1'', 0)" 1 0] c d v
    by simp
qed

text \<open>
  C3 as stated fails in the app package: two punches that arrive labelled OUT (09:00) and IN
  (13:00) leave the normalizer with these labels.
\<close>
theorem two_labelled_punches_unchanged:
  "chronological gd_std two_labelled [0, 1] (PStr ''E1'', 0) = [0, 1]
   \<and> map (log_type_of (snd (adjust_checkin_sequence gd_std [0, 1] two_labelled))) [0, 1]
       = [PStr ''OUT'', PStr ''IN'']"
  by code_simp

text \<open>
  The outer copy overwrites the labels a punch arrives with: the same two punches, the only
  ones of their employee in the batch, come out as IN, OUT.
\<close>
lemma outer_copy_overwrites_labels:
  "map (outer_label [0, 1] two_labelled) [0, 1] = [Some (PStr ''IN''), Some (PStr ''OUT'')]"
  by code_simp

text \<open>
  C4, amended to the normalizer of the app package. The record of a punch after
  normalisation is the same whether or not the batch also holds punches of the same employee
  on other calendar days.
\<close>
theorem normalizer_groups_by_employee_day:
  assumes "a \<in> set ts" and "punch_key gd (h a) = Some ((e, d), dt)"
  shows "snd (adjust_checkin_sequence gd (filter (\<lambda>b. \<not> other_day gd h e d b) ts) h) a
           = snd (adjust_checkin_sequence gd ts h) a"
proof -
  let ?ts' = "filter (\<lambda>b. \<not> other_day gd h e d b) ts"
  have "\<not> other_day gd h e d a" using assms(2) by (simp add: other_day_def)
  then have in': "a \<in> set ?ts'" using assms(1) by simp
  have "chronological gd h ?ts' (e, d) = chronological gd h ts (e, d)"
    by (simp add: chronological_def group_members_filter)
  then show ?thesis
    using adjust_at_group[of a ?ts' gd h "(e, d)" dt] adjust_at_group[of a ts gd h "(e, d)" dt]
      in' assms by simp
qed

text \<open>Day two of an employee, with and without the punch of day one in the batch.\<close>
theorem normalizer_groups_by_employee_day_witness:
  "(1::nat) \<in> set [0, 1]
   \<and> punch_key gd_std (two_days 1) = Some ((PStr ''E1'', 1), clock 33 0)
   \<and> filter (\<lambda>b. \<not> other_day gd_std two_days (PStr ''E1'') 1 b) [0, 1] = [1]
   \<and> snd (adjust_checkin_sequence gd_std [1] two_days) 1
       = snd (adjust_checkin_sequence gd_std [0, 1] two_days) 1"
proof -
  have m: "(1::nat) \<in> set [0, 1]" by simp
  have k: "punch_key gd_std (two_days 1) = Some ((PStr ''E1'', 1), clock 33 0)" by code_simp
  have f: "filter (\<lambda>b. \<not> other_day gd_std two_days (PStr ''E1'') 1 b) [0, 1] = [1]" by code_simp
  show ?thesis
    using normalizer_groups_by_employee_day[of 1 "[0, 1]" gd_std two_days "PStr ''E1''" 1 "clock 33 0"]
      m k f by simp
qed

text \<open>
  C4 fails for the outer copy, which groups by employee only: the single punch of day two is
  labelled OUT when the batch also holds the punch of day one, and IN when it does not.
\<close>
theorem outer_copy_labels_depend_on_other_days:
  "outer_label [0, 1] two_days 1 = Some (PStr ''OUT'')
   \<and> outer_label [1] two_days 1 = Some (PStr ''IN'')"
  by code_simp

text \<open>
  C5, amended to the normalizer of the app package. It returns the list it was given, the
  same records in the same order, and changes no key of a record other than \<open>log_type\<close> and
  \<open>_sequence_adjusted\<close>.
\<close>
theorem normalizer_returns_input_list:
  "fst (adjust_checkin_sequence gd ts h) = ts
   \<and> (\<forall>a key. key \<noteq> ''log_type'' \<and> key \<noteq> ''_sequence_adjusted''
        \<longrightarrow> map_of (snd (adjust_checkin_sequence gd ts h) a) key = map_of (h a) key)"
  by (simp add: adjust_keeps) (simp add: adjust_checkin_sequence_def)

text \<open>A batch given latest first comes back latest first, punch times untouched.\<close>
theorem normalizer_returns_input_list_witness:
  "fst (adjust_checkin_sequence gd_std [0, 1] late_first) = [0, 1]
   \<and> map_of (snd (adjust_checkin_sequence gd_std [0, 1] late_first) 0) ''punch_time''
       = Some (PTime (clock 18 0))"
proof -
  have "map_of (late_first 0) ''punch_time'' = Some (PTime (clock 18 0))"
    by (simp add: late_first_def heap_of_def punch_def)
  then show ?thesis
    using normalizer_returns_input_list[of gd_std "[0, 1]" late_first] by simp
qed

text \<open>
  C5 fails for the outer copy, which returns a new list sorted by punch time: a batch given
  latest first comes back earliest first.
\<close>
theorem outer_copy_returns_time_order:
  "outer_result [0, 1] late_first = Some [1, 0]"
  by code_simp

section \<open>The repair pass is idempotent\<close>

text \<open>
  C9. On a table whose record names are distinct (the name is the primary key), take the
  table left by one applied run of either repair function. A second run over it computes no
  update instruction: \<open>fix_existing_checkins\<close> reports no record or zero updates,
  \<open>fix_all_checkins\<close> reports no record or all records already correct, with every examined
  record counted as needing no change, and both leave the table as it is.
\<close>

theorem repair_pass_idempotent:
  assumes "distinct (map ck_name store)"
  shows "computed_updates (zkteco_checkins (snd (fix_existing_checkins store))) = []
       \<and> (fix_existing_checkins (snd (fix_existing_checkins store))
             = (None, snd (fix_existing_checkins store))
          \<or> fix_existing_checkins (snd (fix_existing_checkins store))
             = (Some 0, snd (fix_existing_checkins store)))
       \<and> analyse_groups (group_checkins (script_checkins (snd (fix_all_checkins False store))))
             = ([], length (script_checkins (snd (fix_all_checkins False store))))
       \<and> (fix_all_checkins dry_run (snd (fix_all_checkins False store))
             = (No_records_found, snd (fix_all_checkins False store))
          \<or> fix_all_checkins dry_run (snd (fix_all_checkins False store))
             = (All_records_already_correct, snd (fix_all_checkins False store)))"
proof -
  have e: "computed_updates (zkteco_checkins (snd (fix_existing_checkins store))) = []"
    using assms by (rule existing_second_run)
  have s: "analyse_groups (group_checkins (script_checkins (snd (fix_all_checkins False store))))
             = ([], length (script_checkins (snd (fix_all_checkins False store))))"
    using assms by (rule script_second_run)
  have e2: "fix_existing_checkins (snd (fix_existing_checkins store))
             = (None, snd (fix_existing_checkins store))
          \<or> fix_existing_checkins (snd (fix_existing_checkins store))
             = (Some 0, snd (fix_existing_checkins store))"
    using e by (simp add: fix_existing_checkins_def[of "snd (fix_existing_checkins store)"] Let_def)
  have s2: "fix_all_checkins dry_run (snd (fix_all_checkins False store))
             = (No_records_found, snd (fix_all_checkins False store))
          \<or> fix_all_checkins dry_run (snd (fix_all_checkins False store))
             = (All_records_already_correct, snd (fix_all_checkins False store))"
    using s by (simp add: fix_all_checkins_def[of dry_run "snd (fix_all_checkins False store)"] Let_def)
  show ?thesis using e e2 s s2 by blast
qed

text \<open>
  On the table of four events that all read IN, the first run rewrites two labels and the
  second run finds all four records correct.
\<close>

theorem repair_pass_idempotent_witness:
  "distinct (map ck_name mislabelled_table)
   \<and> fix_all_checkins False mislabelled_table
       = (Updated 2 0 2,
          [ck ''CHK-1'' ''E1'' (clock 13 0) ''OUT'', ck ''CHK-2'' ''E1'' (clock 9 0) ''IN'',
           ck ''CHK-3'' ''E1'' (clock 18 0) ''OUT'', ck ''CHK-4'' ''E2'' (clock 9 0) ''IN''])
   \<and> analyse_groups (group_checkins (script_checkins (snd (fix_all_checkins False mislabelled_table))))
       = ([], 4)"
proof -
  have d: "distinct (map ck_name mislabelled_table)" by code_simp
  have r: "fix_all_checkins False mislabelled_table
       = (Updated 2 0 2,
          [ck ''CHK-1'' ''E1'' (clock 13 0) ''OUT'', ck ''CHK-2'' ''E1'' (clock 9 0) ''IN'',
           ck ''CHK-3'' ''E1'' (clock 18 0) ''OUT'', ck ''CHK-4'' ''E2'' (clock 9 0) ''IN''])"
    by code_simp
  have n: "length (script_checkins (snd (fix_all_checkins False mislabelled_table))) = 4"
    by code_simp
  show ?thesis using repair_pass_idempotent[OF d, of False] d r n by simp
qed

section \<open>The two copies of the Label Detector agree\<close>

text \<open>
  C10. For every raw transaction field mapping (and whatever \<open>str\<close> and \<open>int\<close> of the
  runtime do), \<open>detect_log_type\<close> of the outer copy and \<open>detect_log_type\<close> of the app
  package return the same label.
\<close>

theorem detect_log_type_copies_agree:
  "detect_log_type_outer rt transaction = detect_log_type rt transaction"
  unfolding detect_log_type_outer_def detect_log_type_def scan_values_outer_eq
    check_fields_outer_eq check_display_outer_eq scan_keys_outer_eq field_checks_outer_eq
  by (rule refl)

text \<open>
  Both copies read \<open>{"punch_state_display": "Check Out"}\<close> as OUT, and a record whose only
  signal is \<open>punch_state = 0\<close> as IN.
\<close>

theorem detect_log_type_copies_agree_witness:
  "detect_log_type_outer plain_runtime [(''punch_state_display'', PStr ''Check Out'')] = ''OUT''
   \<and> detect_log_type_outer plain_runtime [(''punch_state'', PInt 0)] = ''IN''"
proof -
  have "detect_log_type plain_runtime [(''punch_state_display'', PStr ''Check Out'')] = ''OUT''"
    by code_simp
  moreover have "detect_log_type plain_runtime [(''punch_state'', PInt 0)] = ''IN''"
    by code_simp
  ultimately show ?thesis
    using detect_log_type_copies_agree[of plain_runtime "[(''punch_state_display'', PStr ''Check Out'')]"]
      detect_log_type_copies_agree[of plain_runtime "[(''punch_state'', PInt 0)]"]
    by simp
qed

section \<open>The Upsert Gate: time window, duplicates, retries\<close>

text \<open>
  C6. The gate of API and device mode, \<open>create_checkin_from_attendance_v2\<close>, rejects a punch
  four minutes ahead of the clock when its punch time is a string, as it is in every record
  of \<open>response.json()\<close>: the function compares the value as it is with a date-time, the
  comparison raises \<open>TypeError\<close>, and the handler returns \<open>False\<close>. With the clock at 10:00
  on 2025-09-01 and employee \<open>E1\<close> known, the record of 10:04 as the normalizer hands it
  over is inside the window, is refused by this gate with nothing stored, and is accepted by
  \<open>create_employee_checkin\<close>, which parses the string first.
\<close>

theorem api_mode_gate_rejects_punch_inside_window:
  "api_normalized = api_punch @ [(''log_type'', PStr ''IN''), (''_sequence_adjusted'', PBool True)]
   \<and> get_datetime (api_env (clock 10 0)) (PStr api_time) = Some (clock 10 0 + timedelta_minutes 4)
   \<and> \<not> outside_window (api_env (clock 10 0)) (clock 10 0 + timedelta_minutes 4)
   \<and> create_checkin_from_attendance_v2 (api_env (clock 10 0)) api_normalized ''192.168.1.201:80'' []
       = (False, [])
   \<and> fst (create_employee_checkin (api_env (clock 10 0)) api_normalized []) = Inr True"
  by code_simp

text \<open>The same gate accepts the punch of 10:04 when its punch time is a date-time, as in device mode.\<close>

lemma device_mode_gate_accepts_punch_inside_window:
  "create_checkin_from_attendance_v2 (test_env (clock 10 0)) (punch ''E1'' (clock 10 4))
      ''192.168.1.201:4370'' []
     = (True, [\<lparr>ck_name = ''CHK-0'', ck_employee = ''HR-EMP-E1'', ck_time = clock 10 4,
                 ck_log_type = PStr ''IN'', ck_device_id = ''192.168.1.201:4370''\<rparr>])"
  by code_simp

text \<open>
  What the gates do with the time window otherwise. A punch whose time is more than five
  minutes after the clock reading or more than ninety days before it is rejected and the
  table is left as it is, by \<open>create_employee_checkin\<close> of both copies and by
  \<open>create_checkin_from_attendance_v2\<close>. A punch inside the window, with an employee code
  that resolves and a store whose inserts succeed, is accepted by \<open>create_employee_checkin\<close>,
  and by \<open>create_checkin_from_attendance_v2\<close> when its punch time is a date-time: the call
  returns \<open>True\<close> and an event of that employee at that time is in the table. Six minutes
  ahead and ninety-one days back are outside the window, four minutes ahead and eighty-nine
  days back are inside.
\<close>

lemma time_window_gate:
  "(find_punch_time env time_formats t time_fields = Ts_ok pt \<and> outside_window env pt
      \<longrightarrow> create_employee_checkin env t store = (Inr False, store))
   \<and> (find_punch_time env time_formats_outer t time_fields_outer = Ts_ok pt \<and> outside_window env pt
      \<longrightarrow> create_employee_checkin_outer env t store = (Inr False, store))
   \<and> (py_or (dict_get t ''punch_time'') (dict_get t ''timestamp'') = PTime pt \<and> outside_window env pt
      \<longrightarrow> create_checkin_from_attendance_v2 env t device_id store = (False, store))
   \<and> (find_punch_time env time_formats t time_fields = Ts_ok pt \<and> \<not> outside_window env pt
        \<and> truthy (emp_code_of (runtime env) t)
        \<and> find_employee_by_code env (emp_code_of (runtime env) t) = Some employee
        \<and> inserts_succeed env
      \<longrightarrow> fst (create_employee_checkin env t store) = Inr True
          \<and> persisted employee pt (snd (create_employee_checkin env t store)))
   \<and> (py_or (dict_get t ''punch_time'') (dict_get t ''timestamp'') = PTime pt
        \<and> \<not> outside_window env pt \<and> truthy (dict_get t ''emp_code'')
        \<and> find_employee_by_code env (dict_get t ''emp_code'') = Some employee
        \<and> inserts_succeed env
      \<longrightarrow> fst (create_checkin_from_attendance_v2 env t device_id store) = True
          \<and> list_ex (\<lambda>r. ck_employee r = employee \<and> ck_time r = pt)
                (snd (create_checkin_from_attendance_v2 env t device_id store)))
   \<and> outside_window env (now_datetime env + timedelta_minutes 6)
   \<and> \<not> outside_window env (now_datetime env + timedelta_minutes 4)
   \<and> outside_window env (now_datetime env - timedelta_days 91)
   \<and> \<not> outside_window env (now_datetime env - timedelta_days 89)"
  using create_employee_checkin_rejects[of env t pt store]
    create_employee_checkin_outer_rejects[of env t pt store]
    create_checkin_from_attendance_v2_rejects[of t pt env device_id store]
    create_employee_checkin_accepts[of env t pt employee store]
    create_checkin_from_attendance_v2_accepts[of t pt env employee device_id store]
    window_points[of env]
  by blast

text \<open>
  With the clock at 10:00, employee \<open>E1\<close> and an empty table: the punch of 10:06 and the
  punch of ninety-one days ago are rejected, the punch of 10:04 and the punch of eighty-nine
  days ago are stored.
\<close>

lemma time_window_gate_example:
  "create_employee_checkin (test_env (clock 10 0))
      (punch ''E1'' (clock 10 0 + timedelta_minutes 6)) [] = (Inr False, [])
   \<and> create_employee_checkin (test_env (clock 10 0))
      (punch ''E1'' (clock 10 0 - timedelta_days 91)) [] = (Inr False, [])
   \<and> fst (create_employee_checkin (test_env (clock 10 0))
      (punch ''E1'' (clock 10 0 + timedelta_minutes 4)) []) = Inr True
   \<and> persisted ''HR-EMP-E1'' (clock 10 0 + timedelta_minutes 4)
        (snd (create_employee_checkin (test_env (clock 10 0))
           (punch ''E1'' (clock 10 0 + timedelta_minutes 4)) []))
   \<and> fst (create_employee_checkin (test_env (clock 10 0))
      (punch ''E1'' (clock 10 0 - timedelta_days 89)) []) = Inr True
   \<and> persisted ''HR-EMP-E1'' (clock 10 0 - timedelta_days 89)
        (snd (create_employee_checkin (test_env (clock 10 0))
           (punch ''E1'' (clock 10 0 - timedelta_days 89)) []))"
proof -
  let ?env = "test_env (clock 10 0)"
  have now: "now_datetime ?env = clock 10 0" by (simp add: test_env_def)
  have pt: "find_punch_time ?env time_formats (punch ''E1'' x) time_fields = Ts_ok x" for x
    by (simp add: time_fields_def punch_def)
  have emp: "truthy (emp_code_of (runtime ?env) (punch ''E1'' x))" for x
    by (simp add: emp_code_of_def punch_def dict_get_def py_or_def)
  have fe: "find_employee_by_code ?env (emp_code_of (runtime ?env) (punch ''E1'' x))
              = Some ''HR-EMP-E1''" for x
    by (simp add: emp_code_of_def punch_def dict_get_def py_or_def find_employee_by_code_def
          test_env_def employee_table_def)
  have ins: "inserts_succeed ?env" by (rule inserts_succeed_test_env)
  have w: "outside_window ?env (clock 10 0 + timedelta_minutes 6)"
      "\<not> outside_window ?env (clock 10 0 + timedelta_minutes 4)"
      "outside_window ?env (clock 10 0 - timedelta_days 91)"
      "\<not> outside_window ?env (clock 10 0 - timedelta_days 89)"
    using time_window_gate[of ?env] now by simp_all
  have a: "create_employee_checkin ?env (punch ''E1'' (clock 10 0 + timedelta_minutes 6)) []
             = (Inr False, [])"
    using time_window_gate[of ?env "punch ''E1'' (clock 10 0 + timedelta_minutes 6)"
              "clock 10 0 + timedelta_minutes 6" "[]"] pt w(1)
    by blast
  have b: "create_employee_checkin ?env (punch ''E1'' (clock 10 0 - timedelta_days 91)) []
             = (Inr False, [])"
    using time_window_gate[of ?env "punch ''E1'' (clock 10 0 - timedelta_days 91)"
              "clock 10 0 - timedelta_days 91" "[]"] pt w(3)
    by blast
  have c: "fst (create_employee_checkin ?env (punch ''E1'' (clock 10 0 + timedelta_minutes 4)) [])
             = Inr True
           \<and> persisted ''HR-EMP-E1'' (clock 10 0 + timedelta_minutes 4)
               (snd (create_employee_checkin ?env (punch ''E1'' (clock 10 0 + timedelta_minutes 4)) []))"
    using time_window_gate[of ?env "punch ''E1'' (clock 10 0 + timedelta_minutes 4)"
              "clock 10 0 + timedelta_minutes 4" "[]" _ "''HR-EMP-E1''"] pt emp fe ins w(2)
    by blast
  have d: "fst (create_employee_checkin ?env (punch ''E1'' (clock 10 0 - timedelta_days 89)) [])
             = Inr True
           \<and> persisted ''HR-EMP-E1'' (clock 10 0 - timedelta_days 89)
               (snd (create_employee_checkin ?env (punch ''E1'' (clock 10 0 - timedelta_days 89)) []))"
    using time_window_gate[of ?env "punch ''E1'' (clock 10 0 - timedelta_days 89)"
              "clock 10 0 - timedelta_days 89" "[]" _ "''HR-EMP-E1''"] pt emp fe ins w(4)
    by blast
  show ?thesis using a b c d by (intro conjI) (rule a, rule b, simp_all only:)
qed

text \<open>
  C8. The store answers the insert with a duplicate-entry error. In the app package
  \<open>create_employee_checkin\<close> then leaves by \<open>UnboundLocalError\<close>: its handler formats
  \<open>str(e)\<close> without having bound \<open>e\<close>, so it neither logs the condition nor rolls back nor
  reports success, and \<open>sync_zkteco_transactions\<close> counts the record as an error.
\<close>

theorem duplicate_entry_raises_in_app_package:
  "create_employee_checkin (duplicate_env (clock 10 0)) (punch ''E1'' (clock 9 0)) []
     = (Inl UnboundLocalError, [])"
  by code_simp

text \<open>The outer copy, whose handler binds \<open>e\<close>, reports success on the same input.\<close>

lemma duplicate_entry_is_success_in_outer_copy:
  "create_employee_checkin_outer (duplicate_env (clock 10 0)) (punch ''E1'' (clock 9 0)) []
     = (Inr True, [])"
  by code_simp

text \<open>
  C7. The gate run twice on the punch with the long terminal alias stores the event twice:
  the stored device identifier is cut to 135 characters and three dots, and the lookup of
  the second run asks for the 136 characters of the alias, which the stored identifier does
  not contain.
\<close>

theorem long_device_id_is_stored_twice:
  "create_employee_checkin (test_env (clock 10 0)) long_alias_punch []
     = (Inr True, [stored_long_alias ''CHK-0''])
   \<and> create_employee_checkin (test_env (clock 10 0)) long_alias_punch [stored_long_alias ''CHK-0'']
     = (Inr True, [stored_long_alias ''CHK-0'', stored_long_alias ''CHK-1''])"
  by code_simp

section \<open>The stored-state invariant\<close>



end
